theory Spec2Isabelle
  imports Main "HOL-Library.Word"
begin

unbundle bit_operations_syntax

section \<open>Smart Card Detective: the main program and the terminal-reset handler (scd.c)\<close>

text \<open>
  The development embeds \<^verbatim>\<open>main\<close>, \<^verbatim>\<open>InitSCD\<close> and \<^verbatim>\<open>ISR(INT0_vect)\<close> of
  \<^verbatim>\<open>trunk/avrsrc/scd.c\<close>. The target is an 8-bit AVR: \<^verbatim>\<open>uint8_t\<close> is an 8-bit word,
  \<^verbatim>\<open>uint16_t\<close> and EEPROM addresses are 16-bit words, and arithmetic wraps around.
\<close>

type_synonym uint8_t = "8 word"
type_synonym uint16_t = "16 word"

subsection \<open>Constants of the headers\<close>

text \<open>
  The macros below are used by scd.c and defined in headers that are not part of the
  source at hand, so they are parameters of the model. The \<^verbatim>\<open>switch\<close> in \<^verbatim>\<open>main\<close>
  compiles only when its case labels are pairwise different.
\<close>

record scd_values =
  EEPROM_WARM_RESET :: uint16_t
  EEPROM_APPLICATION :: uint16_t
  EEPROM_COUNTER :: uint16_t
  EEPROM_TLOG_POINTER_HI :: uint16_t
  EEPROM_TLOG_POINTER_LO :: uint16_t
  EEPROM_TLOG_DATA :: uint16_t
  EEPROM_MAX_ADDRESS :: uint16_t
  WARM_RESET_VALUE :: uint8_t
  APP_STORE_PIN :: uint8_t
  APP_LOG_FORWARD :: uint8_t
  APP_FW_MODIFY_PIN :: uint8_t
  APP_FILTER_GENERATEAC :: uint8_t
  APP_FILTER_LOG :: uint8_t
  APP_TERMINAL :: uint8_t
  APP_VIRTUAL_SERIAL_PORT :: uint8_t
  APP_ERASE_EEPROM :: uint8_t

definition case_labels :: "scd_values \<Rightarrow> uint8_t list" where
  "case_labels V =
     [APP_STORE_PIN V, APP_LOG_FORWARD V, APP_FW_MODIFY_PIN V, APP_FILTER_GENERATEAC V,
      APP_FILTER_LOG V, APP_TERMINAL V, APP_VIRTUAL_SERIAL_PORT V]"

text \<open>
  One assignment of the constants, used where the model is evaluated on concrete inputs:
  a log region from 0x0100 up to 0x0FE0 and the sentinel 0xAA that the comment in the
  handler mentions.
\<close>

definition example_values :: scd_values where
  "example_values =
     \<lparr>EEPROM_WARM_RESET = 0x00, EEPROM_APPLICATION = 0x32, EEPROM_COUNTER = 0x40,
      EEPROM_TLOG_POINTER_HI = 0x98, EEPROM_TLOG_POINTER_LO = 0x99,
      EEPROM_TLOG_DATA = 0x0100, EEPROM_MAX_ADDRESS = 0x0FE0,
      WARM_RESET_VALUE = 0xAA,
      APP_STORE_PIN = 1, APP_LOG_FORWARD = 2, APP_FW_MODIFY_PIN = 3,
      APP_FILTER_GENERATEAC = 4, APP_FILTER_LOG = 5, APP_TERMINAL = 6,
      APP_VIRTUAL_SERIAL_PORT = 7, APP_ERASE_EEPROM = 8\<rparr>"

subsection \<open>Program state\<close>

text \<open>
  A \<^verbatim>\<open>CRP\<close> holds a command and a response. Their types and the two serializers
  belong to the EMV layer, so the types are parameters and the serializers are passed in.
  A serializer returns \<^verbatim>\<open>NULL\<close> (here \<open>None\<close>) or a buffer whose length it stores
  through a \<^verbatim>\<open>uint8_t\<close> pointer.
\<close>

record ('c, 'r) CRP =
  cmd :: 'c
  response :: 'r

record ('c, 'r) serializers =
  SerializeCommand :: "'c \<Rightarrow> uint8_t list option"
  SerializeResponse :: "'r \<Rightarrow> uint8_t list option"

datatype app =
  StorePIN | ForwardData | ForwardAndChangePIN | FilterGenerateAC | FilterAndLog
  | Terminal | VirtualSerial

text \<open>
  The globals of scd.c, the EEPROM, and three records of what the program did to its
  surroundings: \<open>eeprom_writes\<close> lists the byte writes issued by scd.c in the order they
  were issued, \<open>freed\<close> lists the indices \<open>i\<close> for which \<^verbatim>\<open>FreeCRP(transactionData[i])\<close>
  was called, \<open>apps_run\<close> lists the application entry points called. \<open>wdt_armed\<close> and
  \<open>int0_enabled\<close> stand for the watchdog and the INT0 bit of \<^verbatim>\<open>EIMSK\<close>.
  \<open>transactionData\<close> is the array of \<^verbatim>\<open>MAX_EXCHANGES\<close> pointers; \<open>None\<close> is a null
  pointer.
\<close>

record ('c, 'r) scd_state =
  eeprom :: "uint16_t \<Rightarrow> uint8_t"
  eeprom_writes :: "(uint16_t \<times> uint8_t) list"
  warmResetByte :: uint8_t
  transactionData :: "('c, 'r) CRP option list"
  nTransactions :: uint8_t
  lcdAvailable :: uint8_t
  nCounter :: uint8_t
  selected :: uint8_t
  freed :: "nat list"
  apps_run :: "app list"
  wdt_armed :: bool
  int0_enabled :: bool

datatype fault = InvalidRecordPointer

subsection \<open>EEPROM primitives of avr-libc\<close>

definition eeprom_read_byte :: "uint16_t \<Rightarrow> ('c, 'r) scd_state \<Rightarrow> uint8_t" where
  "eeprom_read_byte a st = eeprom st a"

definition eeprom_write_byte ::
  "uint16_t \<Rightarrow> uint8_t \<Rightarrow> ('c, 'r) scd_state \<Rightarrow> ('c, 'r) scd_state" where
  "eeprom_write_byte a v st =
     st\<lparr>eeprom := (eeprom st)(a := v), eeprom_writes := eeprom_writes st @ [(a, v)]\<rparr>"

text \<open>
  \<^verbatim>\<open>eeprom_write_block(src, dst, n)\<close> writes the first \<open>n\<close> bytes of \<open>src\<close> to
  \<open>dst\<close>, \<open>dst + 1\<close>, ... Every call in scd.c passes a buffer of at least \<open>n\<close> bytes.
\<close>

fun eeprom_write_block ::
  "uint8_t list \<Rightarrow> uint16_t \<Rightarrow> nat \<Rightarrow> ('c, 'r) scd_state \<Rightarrow> ('c, 'r) scd_state" where
  "eeprom_write_block src dst 0 st = st"
| "eeprom_write_block [] dst (Suc n) st = st"
| "eeprom_write_block (b # src) dst (Suc n) st =
     eeprom_write_block src (dst + 1) n (eeprom_write_byte dst b st)"

subsection \<open>The terminal-reset handler, ISR(INT0_vect)\<close>

definition cmdstr :: "uint8_t list" where
  "cmdstr = [0xCC, 0xCC, 0xCC, 0xCC, 0xCC]"

definition rspstr :: "uint8_t list" where
  "rspstr = [0xAA, 0xAA, 0xAA, 0xAA, 0xAA]"

definition appstr :: "uint8_t list" where
  "appstr = [0xDD, 0xDD, 0xDD, 0xDD, 0xDD]"

definition endstr :: "uint8_t list" where
  "endstr = [0xBB, 0xBB, 0xBB, 0xBB, 0xBB]"

text \<open>Lines 350 to 354: the log pointer is read as two bytes; 0xFFFF means "not set".\<close>

definition load_cursor :: "scd_values \<Rightarrow> ('c, 'r) scd_state \<Rightarrow> uint16_t" where
  "load_cursor V st =
     (let addrHi = eeprom_read_byte (EEPROM_TLOG_POINTER_HI V) st;
          addrLo = eeprom_read_byte (EEPROM_TLOG_POINTER_LO V) st;
          addrStream = push_bit 8 (ucast addrHi :: uint16_t) OR ucast addrLo
      in if addrStream = 0xFFFF then EEPROM_TLOG_DATA V else addrStream)"

text \<open>
  The statements that the loop body runs for a command (lines 370 to 379) and again for
  a response (lines 383 to 392): nothing when the serializer returned \<^verbatim>\<open>NULL\<close>;
  otherwise the marker, the stream, and afterwards the comparison with
  \<^verbatim>\<open>EEPROM_MAX_ADDRESS\<close>. The first component of the result tells whether the
  \<^verbatim>\<open>break\<close> is taken.
\<close>

definition log_stream ::
  "scd_values \<Rightarrow> uint8_t list \<Rightarrow> uint8_t list option \<Rightarrow> uint16_t \<times> ('c, 'r) scd_state
   \<Rightarrow> bool \<times> uint16_t \<times> ('c, 'r) scd_state" where
  "log_stream V marker stream p =
     (case stream of
        None \<Rightarrow> (False, p)
      | Some s \<Rightarrow>
          (let lStream = (of_nat (length s) :: uint8_t);
               st1 = eeprom_write_block marker (fst p) 5 (snd p);
               a1 = fst p + 5;
               st2 = eeprom_write_block s a1 (unat lStream) st1;
               a2 = a1 + ucast lStream
           in (EEPROM_MAX_ADDRESS V < a2, a2, st2)))"

definition array_get :: "'a option list \<Rightarrow> nat \<Rightarrow> 'a option" where
  "array_get xs i = (if i < length xs then xs ! i else None)"

definition FreeCRP :: "nat \<Rightarrow> ('c, 'r) scd_state \<Rightarrow> ('c, 'r) scd_state" where
  "FreeCRP i st = st\<lparr>freed := freed st @ [i]\<rparr>"

text \<open>
  Lines 366 to 395, the loop over \<open>i\<close>. \<open>n\<close> is \<^verbatim>\<open>nTransactions\<close>, which the handler
  never assigns. A \<^verbatim>\<open>break\<close> leaves the loop before \<^verbatim>\<open>FreeCRP\<close>. Reading
  \<^verbatim>\<open>transactionData[i]\<close> outside the array or through a null pointer is a fault.
\<close>

function flush_loop ::
  "('c, 'r) serializers \<Rightarrow> scd_values \<Rightarrow> nat \<Rightarrow> nat \<Rightarrow> uint16_t \<times> ('c, 'r) scd_state
   \<Rightarrow> fault + (uint16_t \<times> ('c, 'r) scd_state)" where
  "flush_loop X V n i p =
     (if i < n then
        (case array_get (transactionData (snd p)) i of
           None \<Rightarrow> Inl InvalidRecordPointer
         | Some crp \<Rightarrow>
             (let r1 = log_stream V cmdstr (SerializeCommand X (cmd crp)) p in
              if fst r1 then Inr (snd r1)
              else
                (let r2 = log_stream V rspstr (SerializeResponse X (response crp)) (snd r1) in
                 if fst r2 then Inr (snd r2)
                 else flush_loop X V n (Suc i) (fst (snd r2), FreeCRP i (snd (snd r2))))))
      else Inr p)"
  by pat_completeness auto
termination
  by (relation "measure (\<lambda>(X, V, n, i, p). n - i)") auto

text \<open>Lines 359 to 399: application marker and id, the records, the end marker.\<close>

definition write_log ::
  "('c, 'r) serializers \<Rightarrow> scd_values \<Rightarrow> uint16_t \<Rightarrow> ('c, 'r) scd_state
   \<Rightarrow> fault + (uint16_t \<times> ('c, 'r) scd_state)" where
  "write_log X V addrStream st =
     (let st1 = eeprom_write_block appstr addrStream 5 st;
          a1 = addrStream + 5;
          st2 = eeprom_write_byte a1 (selected st1) st1;
          a2 = a1 + 1
      in case flush_loop X V (unat (nTransactions st2)) 0 (a2, st2) of
           Inl f \<Rightarrow> Inl f
         | Inr r \<Rightarrow> Inr (fst r + 5, eeprom_write_block endstr (fst r) 5 (snd r)))"

text \<open>Lines 402 to 408: the new log pointer, its low byte made a multiple of 8.\<close>

definition page_hi :: "uint16_t \<Rightarrow> uint8_t" where
  "page_hi addrStream = ucast (drop_bit 8 addrStream AND 0x00FF)"

definition page_lo :: "uint16_t \<Rightarrow> uint8_t" where
  "page_lo addrStream = ((ucast (addrStream AND 0x00FF) :: uint8_t) + 8) AND 0xF8"

definition store_cursor ::
  "scd_values \<Rightarrow> uint16_t \<Rightarrow> ('c, 'r) scd_state \<Rightarrow> ('c, 'r) scd_state" where
  "store_cursor V addrStream st =
     eeprom_write_byte (EEPROM_TLOG_POINTER_LO V) (page_lo addrStream)
       (eeprom_write_byte (EEPROM_TLOG_POINTER_HI V) (page_hi addrStream) st)"

text \<open>Lines 350 to 409: the flush of the transaction log.\<close>

definition flush_log ::
  "('c, 'r) serializers \<Rightarrow> scd_values \<Rightarrow> ('c, 'r) scd_state \<Rightarrow> fault + ('c, 'r) scd_state" where
  "flush_log X V st =
     (let addrStream = load_cursor V st in
      if 0 < nTransactions st \<and> addrStream < EEPROM_MAX_ADDRESS V then
        (case write_log X V addrStream st of
           Inl f \<Rightarrow> Inl f
         | Inr r \<Rightarrow> Inr (store_cursor V (fst r) (snd r)))
      else Inr st)"

text \<open>
  Lines 411 to 434. \<open>freq\<close> is what \<^verbatim>\<open>GetTerminalFreq()\<close> returns; only whether it is
  zero matters. The busy wait on \<^verbatim>\<open>EECR\<close> ends when the hardware has completed the
  write and changes nothing.
\<close>

definition warm_reset_update ::
  "scd_values \<Rightarrow> uint16_t \<Rightarrow> ('c, 'r) scd_state \<Rightarrow> ('c, 'r) scd_state" where
  "warm_reset_update V freq st =
     (if freq \<noteq> 0 then
        (let st1 = st\<lparr>warmResetByte := eeprom_read_byte (EEPROM_WARM_RESET V) st\<rparr> in
         if warmResetByte st1 = WARM_RESET_VALUE V
         then eeprom_write_byte (EEPROM_WARM_RESET V) 0 st1
         else eeprom_write_byte (EEPROM_WARM_RESET V) (WARM_RESET_VALUE V) st1)
      else eeprom_write_byte (EEPROM_WARM_RESET V) 0 st)"

definition wdt_disable :: "('c, 'r) scd_state \<Rightarrow> ('c, 'r) scd_state" where
  "wdt_disable st = st\<lparr>wdt_armed := False\<rparr>"

definition wdt_enable :: "('c, 'r) scd_state \<Rightarrow> ('c, 'r) scd_state" where
  "wdt_enable st = st\<lparr>wdt_armed := True\<rparr>"

definition ISR_INT0 ::
  "('c, 'r) serializers \<Rightarrow> scd_values \<Rightarrow> uint16_t \<Rightarrow> ('c, 'r) scd_state
   \<Rightarrow> fault + ('c, 'r) scd_state" where
  "ISR_INT0 X V freq st =
     (let st1 = wdt_disable st;
          st2 = eeprom_write_byte (EEPROM_COUNTER V) (nCounter st1) st1
      in case flush_log X V st2 of
           Inl f \<Rightarrow> Inl f
         | Inr st3 \<Rightarrow>
             Inr (wdt_enable ((warm_reset_update V freq st3)\<lparr>int0_enabled := False\<rparr>)))"

subsection \<open>InitSCD and main\<close>

text \<open>
  What the boot reads from its surroundings: the results of \<^verbatim>\<open>CheckLCD()\<close> and
  \<^verbatim>\<open>GetButtonB()\<close>, the number that the button-polling loop of
  \<^verbatim>\<open>SelectApplication\<close> returns when the LCD is available, and whether
  \<^verbatim>\<open>VirtualSerial()\<close> returns to its caller.
\<close>

record boot_inputs =
  CheckLCD :: uint8_t
  GetButtonB :: uint8_t
  menu_choice :: uint8_t
  VirtualSerial_returns :: bool

text \<open>
  Lines 246 to 321, as far as the globals, the watchdog and the INT0 bit go
  (\<^verbatim>\<open>EIMSK = 0\<close>, after which only INT1 is enabled).
\<close>

definition InitSCD ::
  "scd_values \<Rightarrow> boot_inputs \<Rightarrow> ('c, 'r) scd_state \<Rightarrow> ('c, 'r) scd_state" where
  "InitSCD V inp st =
     (let st1 = wdt_disable (st\<lparr>int0_enabled := False\<rparr>);
          st2 = st1\<lparr>warmResetByte := eeprom_read_byte (EEPROM_WARM_RESET V) st1\<rparr>;
          st3 = st2\<lparr>nCounter := eeprom_read_byte (EEPROM_COUNTER V) st2\<rparr>;
          st4 = st3\<lparr>nTransactions := 0\<rparr>
      in if CheckLCD inp \<noteq> 0 then st4\<lparr>lcdAvailable := 0\<rparr> else st4\<lparr>lcdAvailable := 1\<rparr>)"

definition SelectApplication :: "boot_inputs \<Rightarrow> ('c, 'r) scd_state \<Rightarrow> uint8_t" where
  "SelectApplication inp st = (if lcdAvailable st = 0 then 0 else menu_choice inp)"

text \<open>
  Modelled from the spec: \<^verbatim>\<open>EraseEEPROM\<close> is defined outside scd.c; the specification
  says that the erase choice wipes the persistent store, whose erased state has all bits
  set.
\<close>

definition EraseEEPROM :: "('c, 'r) scd_state \<Rightarrow> ('c, 'r) scd_state" where
  "EraseEEPROM st = st\<lparr>eeprom := (\<lambda>a. 0xFF)\<rparr>"

text \<open>
  The applications are defined in other files. A call of an entry point is recorded in
  \<open>apps_run\<close>; what the application itself does is outside this model.
\<close>

definition run :: "app \<Rightarrow> ('c, 'r) scd_state \<Rightarrow> ('c, 'r) scd_state" where
  "run a st = st\<lparr>apps_run := apps_run st @ [a]\<rparr>"

text \<open>Lines 170 to 173, the statements under the \<^verbatim>\<open>default\<close> label.\<close>

definition default_case :: "scd_values \<Rightarrow> ('c, 'r) scd_state \<Rightarrow> ('c, 'r) scd_state" where
  "default_case V st =
     (let st1 = st\<lparr>selected := APP_TERMINAL V\<rparr>;
          st2 = eeprom_write_byte (EEPROM_APPLICATION V) (selected st1) st1
      in run Terminal st2)"

text \<open>
  Lines 141 to 174, the \<^verbatim>\<open>switch\<close>. Every case ends in \<^verbatim>\<open>break\<close> except
  \<^verbatim>\<open>APP_VIRTUAL_SERIAL_PORT\<close>, after which control reaches the \<^verbatim>\<open>default\<close> label
  when \<^verbatim>\<open>VirtualSerial()\<close> returns.
\<close>

definition dispatch ::
  "scd_values \<Rightarrow> boot_inputs \<Rightarrow> ('c, 'r) scd_state \<Rightarrow> ('c, 'r) scd_state" where
  "dispatch V inp st =
     (if selected st = APP_STORE_PIN V then run StorePIN st
      else if selected st = APP_LOG_FORWARD V then run ForwardData st
      else if selected st = APP_FW_MODIFY_PIN V then run ForwardAndChangePIN st
      else if selected st = APP_FILTER_GENERATEAC V then run FilterGenerateAC st
      else if selected st = APP_FILTER_LOG V then run FilterAndLog st
      else if selected st = APP_TERMINAL V then run Terminal st
      else if selected st = APP_VIRTUAL_SERIAL_PORT V then
        (let st1 = run VirtualSerial st in
         if VirtualSerial_returns inp then default_case V st1 else st1)
      else default_case V st)"

text \<open>
  Lines 98 to 174. The result is the state in which \<^verbatim>\<open>main\<close> stays for good: in the
  application that does not return, or in \<^verbatim>\<open>SwitchLeds\<close>. After a selection by menu
  the watchdog is armed and the \<^verbatim>\<open>switch\<close> still runs; the reset that the watchdog
  causes 15 ms later is not part of the model.
\<close>

definition main :: "scd_values \<Rightarrow> boot_inputs \<Rightarrow> ('c, 'r) scd_state \<Rightarrow> ('c, 'r) scd_state" where
  "main V inp st =
     (let st1 = InitSCD V inp st;
          st2 =
            (if GetButtonB inp = 0 then
               (let st3 = st1\<lparr>selected := SelectApplication inp st1\<rparr>;
                    st4 =
                      (if selected st3 = APP_ERASE_EEPROM V then wdt_enable (EraseEEPROM st3)
                       else eeprom_write_byte (EEPROM_APPLICATION V) (selected st3) st3)
                in wdt_enable st4)
             else st1\<lparr>selected := eeprom_read_byte (EEPROM_APPLICATION V) st1\<rparr>)
      in dispatch V inp st2)"

subsection \<open>Notions used to state what the handler does\<close>

text \<open>The bytes that \<^verbatim>\<open>eeprom_write_block\<close> issues, with their addresses, in order.\<close>

fun block_writes :: "uint16_t \<Rightarrow> uint8_t list \<Rightarrow> (uint16_t \<times> uint8_t) list" where
  "block_writes dst [] = []"
| "block_writes dst (b # bs) = (dst, b) # block_writes (dst + 1) bs"

text \<open>
  The part of a serialized stream that the handler writes: the serializer's length goes
  through a \<^verbatim>\<open>uint8_t\<close>, so these are the first \<open>length s mod 256\<close> bytes, which is
  all of \<open>s\<close> when \<open>s\<close> is shorter than 256 bytes.
\<close>

definition payload :: "uint8_t list \<Rightarrow> uint8_t list" where
  "payload s = take (unat (of_nat (length s) :: uint8_t)) s"

text \<open>
  A unit is a marker followed by its payload. A record contributes its command unit and
  then its response unit; a part whose serializer returns \<^verbatim>\<open>NULL\<close> contributes
  nothing.
\<close>

definition crp_units :: "('c, 'r) serializers \<Rightarrow> ('c, 'r) CRP \<Rightarrow> uint8_t list list" where
  "crp_units X crp =
     (case SerializeCommand X (cmd crp) of None \<Rightarrow> [] | Some s \<Rightarrow> [cmdstr @ payload s]) @
     (case SerializeResponse X (response crp) of None \<Rightarrow> [] | Some s \<Rightarrow> [rspstr @ payload s])"

text \<open>The units of the records at the indices \<open>i\<close>, ..., \<open>n - 1\<close>, in index order.\<close>

definition units_from ::
  "('c, 'r) serializers \<Rightarrow> ('c, 'r) CRP option list \<Rightarrow> nat \<Rightarrow> nat \<Rightarrow> uint8_t list list" where
  "units_from X td n i =
     concat (map (\<lambda>r. case r of None \<Rightarrow> [] | Some crp \<Rightarrow> crp_units X crp)
                 (drop i (take n td)))"

text \<open>
  Writing units from address \<open>a\<close> on, comparing the address with
  \<^verbatim>\<open>EEPROM_MAX_ADDRESS\<close> after each unit: the units that get written, and whether the
  comparison ever succeeds.
\<close>

fun units_written :: "scd_values \<Rightarrow> uint16_t \<Rightarrow> uint8_t list list \<Rightarrow> uint8_t list list" where
  "units_written V a [] = []"
| "units_written V a (u # us) =
     (if EEPROM_MAX_ADDRESS V < a + of_nat (length u) then [u]
      else u # units_written V (a + of_nat (length u)) us)"

fun breaks :: "scd_values \<Rightarrow> uint16_t \<Rightarrow> uint8_t list list \<Rightarrow> bool" where
  "breaks V a [] = False"
| "breaks V a (u # us) =
     (EEPROM_MAX_ADDRESS V < a + of_nat (length u) \<or> breaks V (a + of_nat (length u)) us)"

text \<open>The globals that neither an EEPROM write nor \<^verbatim>\<open>FreeCRP\<close> touches.\<close>

definition same_globals :: "('c, 'r) scd_state \<Rightarrow> ('c, 'r) scd_state \<Rightarrow> bool" where
  "same_globals st st' =
     (warmResetByte st' = warmResetByte st \<and> transactionData st' = transactionData st \<and>
      nTransactions st' = nTransactions st \<and> lcdAvailable st' = lcdAvailable st \<and>
      nCounter st' = nCounter st \<and> selected st' = selected st \<and>
      apps_run st' = apps_run st \<and> wdt_armed st' = wdt_armed st \<and>
      int0_enabled st' = int0_enabled st)"

text \<open>
  The buffer is well formed when \<^verbatim>\<open>nTransactions\<close> is within the array and the first
  \<^verbatim>\<open>nTransactions\<close> pointers are not null.
\<close>

definition buffer_ok :: "('c, 'r) scd_state \<Rightarrow> bool" where
  "buffer_ok st =
     (unat (nTransactions st) \<le> length (transactionData st) \<and>
      list_all (\<lambda>r. r \<noteq> None) (take (unat (nTransactions st)) (transactionData st)))"

definition pending_units :: "('c, 'r) serializers \<Rightarrow> ('c, 'r) scd_state \<Rightarrow> uint8_t list list" where
  "pending_units X st = units_from X (transactionData st) (unat (nTransactions st)) 0"

text \<open>
  The log stream of one flush: application marker, application id, the units that were
  written, end marker.
\<close>

definition log_bytes :: "uint8_t \<Rightarrow> uint8_t list list \<Rightarrow> uint8_t list" where
  "log_bytes app us = appstr @ [app] @ concat us @ endstr"

text \<open>
  The units that a flush starting in \<open>st\<close> writes, and the address after its end
  marker.
\<close>

definition written_units ::
  "('c, 'r) serializers \<Rightarrow> scd_values \<Rightarrow> ('c, 'r) scd_state \<Rightarrow> uint8_t list list" where
  "written_units X V st = units_written V (load_cursor V st + 6) (pending_units X st)"

definition log_end :: "('c, 'r) serializers \<Rightarrow> scd_values \<Rightarrow> ('c, 'r) scd_state \<Rightarrow> uint16_t" where
  "log_end X V st =
     load_cursor V st + of_nat (length (log_bytes (selected st) (written_units X V st)))"

text \<open>The records in the buffer, in index order (null pointers left out).\<close>

definition buffered :: "('c, 'r) scd_state \<Rightarrow> ('c, 'r) CRP list" where
  "buffered st = List.map_filter (\<lambda>r. r) (take (unat (nTransactions st)) (transactionData st))"

text \<open>
  The log stream in the words of the specification: APP-MARKER, application id, then for
  each record CMD-MARKER, command bytes, RSP-MARKER, response bytes, then END-MARKER. It
  is stated for records of which both parts serialize, to fewer than 256 bytes each.
\<close>

definition serializable :: "('c, 'r) serializers \<Rightarrow> ('c, 'r) CRP \<Rightarrow> bool" where
  "serializable X crp =
     ((case SerializeCommand X (cmd crp) of None \<Rightarrow> False | Some c \<Rightarrow> length c < 256) \<and>
      (case SerializeResponse X (response crp) of None \<Rightarrow> False | Some r \<Rightarrow> length r < 256))"

definition record_stream :: "('c, 'r) serializers \<Rightarrow> ('c, 'r) CRP \<Rightarrow> uint8_t list" where
  "record_stream X crp =
     cmdstr @ the (SerializeCommand X (cmd crp)) @ rspstr @ the (SerializeResponse X (response crp))"

definition expected_stream ::
  "('c, 'r) serializers \<Rightarrow> uint8_t \<Rightarrow> ('c, 'r) CRP list \<Rightarrow> uint8_t list" where
  "expected_stream X app recs = appstr @ [app] @ concat (map (record_stream X) recs) @ endstr"

text \<open>The two pointer bytes in the EEPROM read as one 16-bit number, high byte first.\<close>

definition stored_cursor :: "scd_values \<Rightarrow> ('c, 'r) scd_state \<Rightarrow> nat" where
  "stored_cursor V st =
     256 * unat (eeprom st (EEPROM_TLOG_POINTER_HI V)) + unat (eeprom st (EEPROM_TLOG_POINTER_LO V))"

definition warm_flag :: "scd_values \<Rightarrow> ('c, 'r) scd_state \<Rightarrow> uint8_t" where
  "warm_flag V st = eeprom st (EEPROM_WARM_RESET V)"

text \<open>
  The handler returns nothing. When the terminal clock is there it assigns the flag it
  read to \<^verbatim>\<open>warmResetByte\<close> and branches on it; the specification calls the branch
  that finds the sentinel Warm and the other one Cold.
\<close>

datatype reset_kind = Cold | Warm

definition reported :: "scd_values \<Rightarrow> ('c, 'r) scd_state \<Rightarrow> reset_kind" where
  "reported V st = (if warmResetByte st = WARM_RESET_VALUE V then Warm else Cold)"

text \<open>The state in which the handler starts the flush (lines 343 to 347 done).\<close>

definition before_flush :: "scd_values \<Rightarrow> ('c, 'r) scd_state \<Rightarrow> ('c, 'r) scd_state" where
  "before_flush V st = eeprom_write_byte (EEPROM_COUNTER V) (nCounter st) (wdt_disable st)"

subsection \<open>Concrete inputs\<close>

text \<open>
  For evaluation, commands and responses are given by their serialized form, and a
  missing one by \<open>None\<close>. \<open>two_exchanges\<close> is the buffer of the scenario of the
  specification: a SELECT with its status word and a GET RESPONSE with its answer.
\<close>

definition raw :: "(uint8_t list option, uint8_t list option) serializers" where
  "raw = \<lparr>SerializeCommand = (\<lambda>c. c), SerializeResponse = (\<lambda>r. r)\<rparr>"

definition two_exchanges :: "(uint8_t list option, uint8_t list option) scd_state" where
  "two_exchanges =
     \<lparr>eeprom = (\<lambda>a. 0xFF), eeprom_writes = [], warmResetByte = 0,
      transactionData =
        [Some \<lparr>cmd = Some [0x00, 0xA4, 0x04, 0x00, 0x0E], response = Some [0x90, 0x00]\<rparr>,
         Some \<lparr>cmd = Some [0x00, 0xC0, 0x00, 0x00, 0x0E],
               response = Some [0xDE, 0xAD, 0xBE, 0xEF, 0x90, 0x00]\<rparr>],
      nTransactions = 2, lcdAvailable = 1, nCounter = 3, selected = 2, freed = [],
      apps_run = [], wdt_armed = True, int0_enabled = True\<rparr>"

text \<open>The same buffer with the log pointer at 0x0FD8, eight bytes below the region end.\<close>

definition near_end :: "(uint8_t list option, uint8_t list option) scd_state" where
  "near_end = two_exchanges\<lparr>eeprom := (\<lambda>a. 0xFF)(0x98 := 0x0F, 0x99 := 0xD8)\<rparr>"

text \<open>
  One exchange with a response of 216 bytes and the log pointer at 0x0108: the log of
  this flush ends at 0x01FA.
\<close>

definition low_byte_carry :: "(uint8_t list option, uint8_t list option) scd_state" where
  "low_byte_carry =
     two_exchanges
       \<lparr>eeprom := (\<lambda>a. 0xFF)(0x98 := 0x01, 0x99 := 0x08),
        transactionData :=
          [Some \<lparr>cmd = Some [0x00, 0xC0, 0x00, 0x00, 0xD6], response = Some (replicate 216 0x00)\<rparr>],
        nTransactions := 1\<rparr>"

text \<open>An empty buffer, the warm-reset flag at 0.\<close>

definition idle :: "(uint8_t list option, uint8_t list option) scd_state" where
  "idle = two_exchanges\<lparr>eeprom := (\<lambda>a. 0xFF)(0x00 := 0x00), transactionData := [], nTransactions := 0\<rparr>"

text \<open>The buffer of the scenario with the log pointer at the region end, 0x0FE0.\<close>

definition region_full :: "(uint8_t list option, uint8_t list option) scd_state" where
  "region_full = two_exchanges\<lparr>eeprom := (\<lambda>a. 0xFF)(0x98 := 0x0F, 0x99 := 0xE0)\<rparr>"

text \<open>The buffer of the scenario with the warm-reset flag at the sentinel.\<close>

definition warm_pending :: "(uint8_t list option, uint8_t list option) scd_state" where
  "warm_pending = two_exchanges\<lparr>eeprom := (\<lambda>a. 0xFF)(0x00 := 0xAA)\<rparr>"

text \<open>The idle state at the switch, with the virtual serial port or an unknown id selected.\<close>

definition serial_selected :: "(uint8_t list option, uint8_t list option) scd_state" where
  "serial_selected = idle\<lparr>selected := 7\<rparr>"

definition unknown_selected :: "(uint8_t list option, uint8_t list option) scd_state" where
  "unknown_selected = idle\<lparr>selected := 0xFF\<rparr>"

definition no_button :: boot_inputs where
  "no_button = \<lparr>CheckLCD = 0, GetButtonB = 1, menu_choice = 0, VirtualSerial_returns = True\<rparr>"

section \<open>Properties\<close>

subsection \<open>EEPROM writes\<close>

declare flush_loop.simps [simp del]

lemma same_globals_refl: "same_globals st st"
  by (simp add: same_globals_def)

lemma same_globals_trans: "same_globals a b \<Longrightarrow> same_globals b c \<Longrightarrow> same_globals a c"
  by (simp add: same_globals_def)

lemma same_globals_write_byte: "same_globals st (eeprom_write_byte a v st)"
  by (simp add: same_globals_def eeprom_write_byte_def)

lemma freed_write_byte: "freed (eeprom_write_byte a v st) = freed st"
  by (simp add: eeprom_write_byte_def)

lemma writes_write_byte: "eeprom_writes (eeprom_write_byte a v st) = eeprom_writes st @ [(a, v)]"
  by (simp add: eeprom_write_byte_def)

lemma same_globals_write_block: "same_globals st (eeprom_write_block src dst n st)"
proof (induction src dst n st rule: eeprom_write_block.induct)
  case (3 b src dst n st)
  then show ?case
    using same_globals_trans [OF same_globals_write_byte] by simp
qed (simp_all add: same_globals_refl)

lemma freed_write_block: "freed (eeprom_write_block src dst n st) = freed st"
  by (induction src dst n st rule: eeprom_write_block.induct) (simp_all add: freed_write_byte)

lemma writes_write_block:
  "eeprom_writes (eeprom_write_block src dst n st) = eeprom_writes st @ block_writes dst (take n src)"
  by (induction src dst n st rule: eeprom_write_block.induct) (simp_all add: writes_write_byte)

lemma block_writes_append:
  "block_writes a (xs @ ys) = block_writes a xs @ block_writes (a + of_nat (length xs)) ys"
  by (induction xs arbitrary: a) (simp_all add: add.assoc add.commute)

lemma length_payload: "length (payload s) = unat (of_nat (length s) :: uint8_t)"
proof -
  have "unat (of_nat (length s) :: uint8_t) \<le> length s"
    by (simp add: unat_of_nat)
  then show ?thesis by (simp add: payload_def)
qed

lemma payload_short: "length s < 256 \<Longrightarrow> payload s = s"
  by (simp add: payload_def unat_of_nat)

lemma length_payload_le: "length (payload s) \<le> 255"
proof -
  have "unat (of_nat (length s) :: uint8_t) < 2 ^ 8"
    using unsigned_less [of "of_nat (length s) :: uint8_t"] by simp
  then show ?thesis by (simp add: length_payload)
qed

lemma log_stream_None: "log_stream V m None p = (False, p)"
  by (simp add: log_stream_def)

lemma log_stream_Some:
  assumes "length m = 5"
  shows "\<exists>st2. log_stream V m (Some s) (a, st) =
           (EEPROM_MAX_ADDRESS V < a + of_nat (length (m @ payload s)),
            a + of_nat (length (m @ payload s)), st2)
         \<and> eeprom_writes st2 = eeprom_writes st @ block_writes a (m @ payload s)
         \<and> freed st2 = freed st \<and> same_globals st st2"
proof -
  let ?l = "of_nat (length s) :: uint8_t"
  let ?st1 = "eeprom_write_block m a 5 st"
  let ?st2 = "eeprom_write_block s (a + 5) (unat ?l) ?st1"
  have a2: "a + 5 + ucast ?l = a + of_nat (length (m @ payload s))"
    using assms by (simp add: length_payload)
  have "log_stream V m (Some s) (a, st) =
          (EEPROM_MAX_ADDRESS V < a + 5 + ucast ?l, a + 5 + ucast ?l, ?st2)"
    by (simp add: log_stream_def Let_def)
  moreover have "eeprom_writes ?st2 = eeprom_writes st @ block_writes a (m @ payload s)"
    using assms by (simp add: writes_write_block block_writes_append payload_def)
  moreover have "freed ?st2 = freed st"
    by (simp add: freed_write_block)
  moreover have "same_globals st ?st2"
    using same_globals_trans [OF same_globals_write_block same_globals_write_block] .
  ultimately show ?thesis using a2 by auto
qed


subsection \<open>The loop of the handler\<close>

lemma units_from_done: "n \<le> i \<Longrightarrow> units_from X td n i = []"
  by (simp add: units_from_def)

lemma units_from_step:
  assumes "i < n" "n \<le> length td" "td ! i = Some crp"
  shows "units_from X td n i = crp_units X crp @ units_from X td n (Suc i)"
proof -
  have "i < length (take n td)" using assms by simp
  from Cons_nth_drop_Suc [OF this, symmetric]
  have "drop i (take n td) = Some crp # drop (Suc i) (take n td)"
    using assms by simp
  then show ?thesis by (simp add: units_from_def)
qed

lemma flush_loop_result:
  assumes "n - i = k" "i \<le> n" "n \<le> length (transactionData st)"
    and "list_all (\<lambda>r. r \<noteq> None) (take n (transactionData st))"
  shows "\<exists>st' j. flush_loop X V n i (a, st) =
            Inr (a + of_nat (length (concat (units_written V a (units_from X (transactionData st) n i)))), st')
          \<and> eeprom_writes st' = eeprom_writes st @
              block_writes a (concat (units_written V a (units_from X (transactionData st) n i)))
          \<and> freed st' = freed st @ [i..<j] \<and> i \<le> j \<and> j \<le> n
          \<and> (\<not> breaks V a (units_from X (transactionData st) n i) \<longrightarrow> j = n)
          \<and> same_globals st st'"
  using assms
proof (induction k arbitrary: i a st)
  case 0
  then have "i = n" by simp
  then show ?case
    by (simp add: flush_loop.simps units_from_done same_globals_refl)
next
  case (Suc k)
  let ?td = "transactionData st"
  from Suc.prems have lt: "i < n" by simp
  with Suc.prems have "?td ! i \<noteq> None"
    by (simp add: list_all_length)
  then obtain crp where crp: "?td ! i = Some crp" by auto
  with lt Suc.prems have get: "array_get ?td i = Some crp"
    by (simp add: array_get_def)
  have U: "units_from X ?td n i = crp_units X crp @ units_from X ?td n (Suc i)"
    using units_from_step [OF lt _ crp] Suc.prems by simp
  let ?R = "units_from X ?td n (Suc i)"
  have step: "\<And>a1 st1. freed st1 = freed st \<Longrightarrow> same_globals st st1 \<Longrightarrow>
     \<exists>st' j. flush_loop X V n (Suc i) (a1, FreeCRP i st1) =
            Inr (a1 + of_nat (length (concat (units_written V a1 ?R))), st')
          \<and> eeprom_writes st' = eeprom_writes st1 @ block_writes a1 (concat (units_written V a1 ?R))
          \<and> freed st' = freed st @ [i..<j] \<and> i \<le> j \<and> j \<le> n
          \<and> (\<not> breaks V a1 ?R \<longrightarrow> j = n)
          \<and> same_globals st st'"
  proof -
    fix a1 st1
    assume f: "freed st1 = freed st" and g: "same_globals st st1"
    have td: "transactionData (FreeCRP i st1) = ?td"
      using g by (simp add: FreeCRP_def same_globals_def)
    have g2: "same_globals st (FreeCRP i st1)"
      using g by (simp add: FreeCRP_def same_globals_def)
    have k: "n - Suc i = k" "Suc i \<le> n" using Suc.prems lt by simp_all
    have "n \<le> length (transactionData (FreeCRP i st1))"
      and "list_all (\<lambda>r. r \<noteq> None) (take n (transactionData (FreeCRP i st1)))"
      using Suc.prems td by simp_all
    from Suc.IH [OF k this, of a1] td
    obtain st' j where r: "flush_loop X V n (Suc i) (a1, FreeCRP i st1) =
            Inr (a1 + of_nat (length (concat (units_written V a1 ?R))), st')"
      "eeprom_writes st' = eeprom_writes (FreeCRP i st1) @ block_writes a1 (concat (units_written V a1 ?R))"
      "freed st' = freed (FreeCRP i st1) @ [Suc i..<j]" "Suc i \<le> j" "j \<le> n"
      "\<not> breaks V a1 ?R \<longrightarrow> j = n" "same_globals (FreeCRP i st1) st'"
      by auto
    have "freed st' = freed st @ [i..<j]"
      using r(3,4) f by (simp add: FreeCRP_def upt_conv_Cons)
    moreover have "eeprom_writes (FreeCRP i st1) = eeprom_writes st1"
      by (simp add: FreeCRP_def)
    ultimately show "\<exists>st' j. flush_loop X V n (Suc i) (a1, FreeCRP i st1) =
            Inr (a1 + of_nat (length (concat (units_written V a1 ?R))), st')
          \<and> eeprom_writes st' = eeprom_writes st1 @ block_writes a1 (concat (units_written V a1 ?R))
          \<and> freed st' = freed st @ [i..<j] \<and> i \<le> j \<and> j \<le> n
          \<and> (\<not> breaks V a1 ?R \<longrightarrow> j = n)
          \<and> same_globals st st'"
      using r same_globals_trans [OF g2 r(7)] by auto
  qed
  show ?case
  proof (cases "SerializeCommand X (cmd crp)")
    case None
    note c = None
    show ?thesis
    proof (cases "SerializeResponse X (response crp)")
      case None
      from step [of st a, OF refl same_globals_refl] show ?thesis
        using lt get c None U
        by (simp add: flush_loop.simps [of X V n i] log_stream_None crp_units_def)
    next
      case (Some s)
      from log_stream_Some [of rspstr V s a st]
      obtain st2 where l: "log_stream V rspstr (Some s) (a, st) =
           (EEPROM_MAX_ADDRESS V < a + of_nat (length (rspstr @ payload s)),
            a + of_nat (length (rspstr @ payload s)), st2)"
         "eeprom_writes st2 = eeprom_writes st @ block_writes a (rspstr @ payload s)"
         "freed st2 = freed st" "same_globals st st2"
        by (auto simp: rspstr_def)
      show ?thesis
      proof (cases "EEPROM_MAX_ADDRESS V < a + of_nat (length (rspstr @ payload s))")
        case True
        then show ?thesis
          using lt get c Some U l
          by (auto simp: flush_loop.simps [of X V n i] log_stream_None crp_units_def
              intro!: exI [of _ i])
      next
        case False
        from step [OF l(3,4), of "a + of_nat (length (rspstr @ payload s))"] show ?thesis
          using lt get c Some U l False
          by (simp add: flush_loop.simps [of X V n i] log_stream_None crp_units_def
              block_writes_append add.assoc)
      qed
    qed
  next
    case (Some s)
    note c = Some
    from log_stream_Some [of cmdstr V s a st]
    obtain st1 where l1: "log_stream V cmdstr (Some s) (a, st) =
           (EEPROM_MAX_ADDRESS V < a + of_nat (length (cmdstr @ payload s)),
            a + of_nat (length (cmdstr @ payload s)), st1)"
         "eeprom_writes st1 = eeprom_writes st @ block_writes a (cmdstr @ payload s)"
         "freed st1 = freed st" "same_globals st st1"
      by (auto simp: cmdstr_def)
    let ?a1 = "a + of_nat (length (cmdstr @ payload s))"
    show ?thesis
    proof (cases "EEPROM_MAX_ADDRESS V < ?a1")
      case True
      then show ?thesis
        using lt get c U l1
        by (auto simp: flush_loop.simps [of X V n i] crp_units_def
            intro!: exI [of _ i] split: option.splits)
    next
      case nb1: False
      show ?thesis
      proof (cases "SerializeResponse X (response crp)")
        case None
        from step [OF l1(3,4), of ?a1] show ?thesis
          using lt get c None U l1 nb1
          by (simp add: flush_loop.simps [of X V n i] log_stream_None crp_units_def
              block_writes_append add.assoc)
      next
        case (Some t)
        from log_stream_Some [of rspstr V t ?a1 st1]
        obtain st2 where l2: "log_stream V rspstr (Some t) (?a1, st1) =
           (EEPROM_MAX_ADDRESS V < ?a1 + of_nat (length (rspstr @ payload t)),
            ?a1 + of_nat (length (rspstr @ payload t)), st2)"
         "eeprom_writes st2 = eeprom_writes st1 @ block_writes ?a1 (rspstr @ payload t)"
         "freed st2 = freed st1" "same_globals st1 st2"
          by (auto simp: rspstr_def)
        have f2: "freed st2 = freed st" using l2(3) l1(3) by simp
        have g2: "same_globals st st2" using same_globals_trans [OF l1(4) l2(4)] .
        show ?thesis
        proof (cases "EEPROM_MAX_ADDRESS V < ?a1 + of_nat (length (rspstr @ payload t))")
          case True
          then show ?thesis
            using lt get c Some U l1 l2 nb1 f2 g2
            by (auto simp: flush_loop.simps [of X V n i] crp_units_def
                block_writes_append add.assoc intro!: exI [of _ i])
        next
          case False
          from step [OF f2 g2, of "?a1 + of_nat (length (rspstr @ payload t))"] show ?thesis
            using lt get c Some U l1 l2 nb1 False
            by (simp add: flush_loop.simps [of X V n i] crp_units_def
                block_writes_append add.assoc)
        qed
      qed
    qed
  qed
qed

subsection \<open>The flush\<close>

lemma writes_store_cursor:
  "eeprom_writes (store_cursor V e s) =
     eeprom_writes s @ [(EEPROM_TLOG_POINTER_HI V, page_hi e), (EEPROM_TLOG_POINTER_LO V, page_lo e)]"
  by (simp add: store_cursor_def eeprom_write_byte_def)

lemma freed_store_cursor: "freed (store_cursor V e s) = freed s"
  by (simp add: store_cursor_def eeprom_write_byte_def)

lemma same_globals_store_cursor: "same_globals s (store_cursor V e s)"
  by (simp add: store_cursor_def eeprom_write_byte_def same_globals_def)

lemma stored_cursor_store_cursor:
  "EEPROM_TLOG_POINTER_HI V \<noteq> EEPROM_TLOG_POINTER_LO V \<Longrightarrow>
   stored_cursor V (store_cursor V e s) = 256 * unat (page_hi e) + unat (page_lo e)"
  by (simp add: stored_cursor_def store_cursor_def eeprom_write_byte_def)

lemma write_log_result:
  assumes ok: "buffer_ok st"
  shows "\<exists>s1 j. write_log X V c st =
            Inr (c + of_nat (length (log_bytes (selected st)
                   (units_written V (c + 6) (pending_units X st)))), s1)
          \<and> eeprom_writes s1 = eeprom_writes st @
              block_writes c (log_bytes (selected st) (units_written V (c + 6) (pending_units X st)))
          \<and> freed s1 = freed st @ [0..<j] \<and> j \<le> unat (nTransactions st)
          \<and> (\<not> breaks V (c + 6) (pending_units X st) \<longrightarrow> j = unat (nTransactions st))
          \<and> same_globals st s1"
proof -
  let ?n = "unat (nTransactions st)"
  let ?st1 = "eeprom_write_block appstr c 5 st"
  let ?st2 = "eeprom_write_byte (c + 5) (selected st) ?st1"
  let ?W = "units_written V (c + 6) (pending_units X st)"
  have g1: "same_globals st ?st1" by (rule same_globals_write_block)
  have g2: "same_globals st ?st2"
    using same_globals_trans [OF g1 same_globals_write_byte] .
  then have td: "transactionData ?st2 = transactionData st"
    and nt: "nTransactions ?st2 = nTransactions st"
    and sel: "selected ?st1 = selected st"
    using g1 by (simp_all add: same_globals_def)
  have w2: "eeprom_writes ?st2 = eeprom_writes st @ block_writes c (appstr @ [selected st])"
    by (simp add: writes_write_byte writes_write_block block_writes_append appstr_def)
  have f2: "freed ?st2 = freed st"
    by (simp add: freed_write_byte freed_write_block)
  have "?n - 0 = ?n" "0 \<le> ?n" by simp_all
  moreover have "?n \<le> length (transactionData ?st2)"
    and "list_all (\<lambda>r. r \<noteq> None) (take ?n (transactionData ?st2))"
    using ok td by (simp_all add: buffer_ok_def)
  ultimately obtain s3 j where r:
    "flush_loop X V ?n 0 (c + 6, ?st2) = Inr (c + 6 + of_nat (length (concat ?W)), s3)"
    "eeprom_writes s3 = eeprom_writes ?st2 @ block_writes (c + 6) (concat ?W)"
    "freed s3 = freed ?st2 @ [0..<j]" "j \<le> ?n"
    "\<not> breaks V (c + 6) (pending_units X st) \<longrightarrow> j = ?n" "same_globals ?st2 s3"
    using flush_loop_result [of ?n 0 ?n ?st2 X V "c + 6"] td
    by (auto simp: pending_units_def)
  let ?e = "c + 6 + of_nat (length (concat ?W))"
  let ?s4 = "eeprom_write_block endstr ?e 5 s3"
  have wl: "write_log X V c st = Inr (?e + 5, ?s4)"
    using r(1) by (simp add: write_log_def Let_def sel nt add.assoc)
  have len: "c + of_nat (length (log_bytes (selected st) ?W)) = ?e + 5"
    by (simp add: log_bytes_def appstr_def endstr_def)
  have w4: "eeprom_writes ?s4 =
      eeprom_writes st @ block_writes c (log_bytes (selected st) ?W)"
    using r(2) w2
    by (simp add: writes_write_block log_bytes_def block_writes_append endstr_def appstr_def
        add.assoc)
  have f4: "freed ?s4 = freed st @ [0..<j]"
    using r(3) f2 by (simp add: freed_write_block)
  have g4: "same_globals st ?s4"
    using same_globals_trans [OF g2 same_globals_trans [OF r(6) same_globals_write_block]] .
  show ?thesis
    using wl len w4 f4 g4 r(4,5) by auto
qed

subsection \<open>Word arithmetic\<close>

lemma unat_low_byte: "unat (ucast ((e::uint16_t) AND 0x00FF) :: uint8_t) = unat e mod 256"
proof -
  have m: "(0xFF :: uint16_t) = mask 8" by (simp add: mask_eq_exp_minus_1)
  show ?thesis
    by (simp add: m unsigned_ucast_eq unsigned_take_bit_eq take_bit_eq_mod unat_mod
        flip: take_bit_eq_mask)
qed

lemma unat_page_hi: "unat (page_hi e) = unat e div 256"
proof -
  have m: "(0xFF :: uint16_t) = mask 8" by (simp add: mask_eq_exp_minus_1)
  have "unat e < 2 ^ LENGTH(16)" by (rule unsigned_less)
  then have "unat e div 256 < 256" by simp
  then show ?thesis
    by (simp add: page_hi_def m unsigned_ucast_eq unsigned_take_bit_eq take_bit_eq_mod
        unat_drop_bit_eq drop_bit_eq_div unat_mod unat_div flip: take_bit_eq_mask)
qed

lemma and_F8: "(y::uint8_t) AND 0xF8 = push_bit 3 (drop_bit 3 y)"
proof -
  have m: "(0xF8 :: uint8_t) = NOT (mask 3)" by (simp add: mask_eq_exp_minus_1)
  show ?thesis
    unfolding m by (rule bit_word_eqI) (auto simp: bit_simps)
qed

lemma unat_and_F8: "unat ((y::uint8_t) AND 0xF8) = unat y div 8 * 8"
proof -
  have "unat y < 2 ^ LENGTH(8)" by (rule unsigned_less)
  then have "unat y div 8 * 8 < 256" by simp
  then show ?thesis
    unfolding and_F8 unsigned_push_bit_eq unat_drop_bit_eq
    by (simp add: push_bit_eq_mult drop_bit_eq_div take_bit_eq_mod)
qed

lemma unat_page_lo: "unat (page_lo e) = (unat e mod 256 + 8) mod 256 div 8 * 8"
  by (simp add: page_lo_def unat_and_F8 unat_word_ariths unat_low_byte)

lemma unat_hi_lo:
  "unat (push_bit 8 (ucast (h::uint8_t) :: uint16_t) OR ucast (l::uint8_t)) = 256 * unat h + unat l"
proof -
  have "push_bit 8 (ucast h :: uint16_t) OR ucast l = push_bit 8 (ucast h) + ucast l"
    by (rule disjunctive_add [symmetric]) (auto simp: bit_simps dest: bit_imp_le_length)
  moreover have h: "unat h < 2 ^ LENGTH(8)" by (rule unsigned_less)
  moreover have l: "unat l < 2 ^ LENGTH(8)" by (rule unsigned_less)
  moreover have "unat (push_bit 8 (ucast h :: uint16_t)) = 256 * unat h"
    using h unfolding unsigned_push_bit_eq unsigned_ucast_eq
    by (simp add: push_bit_eq_mult take_bit_eq_mod)
  moreover have "unat (ucast l :: uint16_t) = unat l"
    using l by (simp add: unsigned_ucast_eq take_bit_eq_mod)
  ultimately show ?thesis
    by (simp add: unat_word_ariths)
qed

lemma hi_lo_FFFF:
  "push_bit 8 (ucast (h::uint8_t) :: uint16_t) OR ucast (l::uint8_t) = 0xFFFF \<longleftrightarrow> h = 0xFF \<and> l = 0xFF"
proof -
  have h: "unat h < 2 ^ LENGTH(8)" by (rule unsigned_less)
  have l: "unat l < 2 ^ LENGTH(8)" by (rule unsigned_less)
  have "push_bit 8 (ucast h :: uint16_t) OR ucast l = 0xFFFF
        \<longleftrightarrow> 256 * unat h + unat l = 65535"
    by (simp add: word_unat_eq_iff unat_hi_lo)
  also have "\<dots> \<longleftrightarrow> unat h = 255 \<and> unat l = 255"
    using h l by simp arith
  also have "\<dots> \<longleftrightarrow> h = 0xFF \<and> l = 0xFF"
    by (simp add: word_unat_eq_iff)
  finally show ?thesis .
qed

lemma unat_plus_of_nat: "unat (a::uint16_t) + n < 65536 \<Longrightarrow> unat (a + of_nat n) = unat a + n"
  by (simp add: unat_word_ariths unat_of_nat)

lemma unat_load_cursor:
  "unat (load_cursor V st) =
     (if eeprom st (EEPROM_TLOG_POINTER_HI V) = 0xFF \<and> eeprom st (EEPROM_TLOG_POINTER_LO V) = 0xFF
      then unat (EEPROM_TLOG_DATA V) else stored_cursor V st)"
  by (simp add: load_cursor_def Let_def eeprom_read_byte_def hi_lo_FFFF unat_hi_lo stored_cursor_def)

lemma page_round_dvd: "8 dvd 256 * (E div 256) + (E mod 256 + 8) mod 256 div 8 * (8::nat)"
  by simp

lemma page_round_gt:
  "E mod 256 < 248 \<Longrightarrow> E < 256 * (E div 256) + (E mod 256 + 8) mod 256 div 8 * (8::nat)"
proof -
  assume a: "E mod 256 < 248"
  define r where "r = E mod 256"
  have E: "E = 256 * (E div 256) + r" by (simp add: r_def)
  have "(r + 8) mod 256 = r + 8" using a by (simp add: r_def)
  moreover have "r < (r + 8) div 8 * 8" by arith
  ultimately show ?thesis using E unfolding r_def [symmetric] by simp
qed

lemma page_round_le: "256 * (E div 256) + (E mod 256 + 8) mod 256 div 8 * 8 \<le> E + (8::nat)"
proof -
  define r where "r = E mod 256"
  have E: "E = 256 * (E div 256) + r" by (simp add: r_def)
  have "(r + 8) mod 256 \<le> r + 8" by simp
  moreover have "(r + 8) mod 256 div 8 * 8 \<le> (r + 8) mod 256" by simp
  ultimately have "(r + 8) mod 256 div 8 * 8 \<le> r + 8" by (rule order_trans [rotated])
  then show ?thesis using E unfolding r_def [symmetric] by linarith
qed

subsection \<open>Units written under the check after each unit\<close>

lemma units_written_take: "\<exists>k. units_written V a us = take k us"
proof (induction us arbitrary: a)
  case Nil
  show ?case by simp
next
  case (Cons u us)
  show ?case
  proof (cases "EEPROM_MAX_ADDRESS V < a + of_nat (length u)")
    case True
    then have "units_written V a (u # us) = take 1 (u # us)" by simp
    then show ?thesis by blast
  next
    case False
    from Cons.IH [of "a + of_nat (length u)"] obtain k
      where "units_written V (a + of_nat (length u)) us = take k us" by blast
    with False have "units_written V a (u # us) = take (Suc k) (u # us)" by simp
    then show ?thesis by blast
  qed
qed

lemma units_written_truncated:
  "units_written V a us \<noteq> us \<Longrightarrow>
   EEPROM_MAX_ADDRESS V < a + of_nat (length (concat (units_written V a us)))"
proof (induction us arbitrary: a)
  case Nil
  then show ?case by simp
next
  case (Cons u us)
  show ?case
  proof (cases "EEPROM_MAX_ADDRESS V < a + of_nat (length u)")
    case True
    then show ?thesis by simp
  next
    case False
    with Cons.prems have "units_written V (a + of_nat (length u)) us \<noteq> us" by simp
    from Cons.IH [OF this] False show ?thesis by (simp add: add.assoc)
  qed
qed

lemma units_written_checked:
  "0 < k \<Longrightarrow> k < length (units_written V a us) \<Longrightarrow>
   a + of_nat (length (concat (take k (units_written V a us)))) \<le> EEPROM_MAX_ADDRESS V"
proof (induction us arbitrary: a k)
  case Nil
  then show ?case by simp
next
  case (Cons u us)
  show ?case
  proof (cases "EEPROM_MAX_ADDRESS V < a + of_nat (length u)")
    case True
    with Cons.prems show ?thesis by simp
  next
    case False
    from Cons.prems obtain k' where k: "k = Suc k'" by (cases k) auto
    show ?thesis
    proof (cases k')
      case 0
      with k False show ?thesis by (simp add: not_less)
    next
      case (Suc m)
      with k Cons.prems False
      have "k' < length (units_written V (a + of_nat (length u)) us)" "0 < k'" by simp_all
      from Cons.IH [OF this(2,1)] k False show ?thesis by (simp add: add.assoc)
    qed
  qed
qed

lemma units_written_all:
  "unat a + length (concat us) \<le> unat (EEPROM_MAX_ADDRESS V) \<Longrightarrow>
   \<not> breaks V a us \<and> units_written V a us = us"
proof (induction us arbitrary: a)
  case Nil
  show ?case by simp
next
  case (Cons u us)
  have "unat (EEPROM_MAX_ADDRESS V) < 2 ^ LENGTH(16)" by (rule unsigned_less)
  with Cons.prems have "unat a + length u < 65536" by simp
  then have ua: "unat (a + of_nat (length u)) = unat a + length u"
    by (rule unat_plus_of_nat)
  with Cons.prems have nb: "\<not> EEPROM_MAX_ADDRESS V < a + of_nat (length u)"
    by (simp add: word_less_nat_alt)
  from Cons.prems ua
  have "unat (a + of_nat (length u)) + length (concat us) \<le> unat (EEPROM_MAX_ADDRESS V)"
    by simp
  from Cons.IH [OF this] nb show ?case by simp
qed

lemma units_written_bound:
  assumes "\<forall>u \<in> set us. length u \<le> 260" "unat a \<le> unat (EEPROM_MAX_ADDRESS V) + 5"
    and "unat (EEPROM_MAX_ADDRESS V) + 265 < 65536"
  shows "unat a + length (concat (units_written V a us)) \<le> unat (EEPROM_MAX_ADDRESS V) + 265"
  using assms
proof (induction us arbitrary: a)
  case Nil
  then show ?case by simp
next
  case (Cons u us)
  from Cons.prems have lu: "length u \<le> 260" by simp
  with Cons.prems have "unat a + length u < 65536" by simp
  then have ua: "unat (a + of_nat (length u)) = unat a + length u"
    by (rule unat_plus_of_nat)
  show ?case
  proof (cases "EEPROM_MAX_ADDRESS V < a + of_nat (length u)")
    case True
    with lu Cons.prems show ?thesis by simp
  next
    case False
    then have B: "unat (a + of_nat (length u)) \<le> unat (EEPROM_MAX_ADDRESS V) + 5"
      by (simp add: word_less_nat_alt)
    from Cons.prems have A: "\<forall>u \<in> set us. length u \<le> 260" by simp
    from Cons.IH [OF A B Cons.prems(3)]
    have "unat (a + of_nat (length u)) + length (concat (units_written V (a + of_nat (length u)) us))
        \<le> unat (EEPROM_MAX_ADDRESS V) + 265" .
    with False ua show ?thesis by simp
  qed
qed

lemma length_crp_unit: "u \<in> set (crp_units X crp) \<Longrightarrow> length u \<le> 260"
  using length_payload_le
  by (auto simp: crp_units_def cmdstr_def rspstr_def split: option.splits
      intro: le_trans [OF add_left_mono [OF length_payload_le]])

lemma length_pending_unit: "u \<in> set (pending_units X st) \<Longrightarrow> length u \<le> 260"
  by (auto simp: pending_units_def units_from_def dest: length_crp_unit split: option.splits)

subsection \<open>The flush as a whole\<close>

lemma flush_log_runs:
  assumes "buffer_ok st" "0 < nTransactions st" "load_cursor V st < EEPROM_MAX_ADDRESS V"
  shows "\<exists>s1 j. flush_log X V st = Inr (store_cursor V (log_end X V st) s1)
          \<and> eeprom_writes s1 = eeprom_writes st @
              block_writes (load_cursor V st) (log_bytes (selected st) (written_units X V st))
          \<and> freed s1 = freed st @ [0..<j] \<and> j \<le> unat (nTransactions st)
          \<and> (\<not> breaks V (load_cursor V st + 6) (pending_units X st)
               \<longrightarrow> j = unat (nTransactions st))
          \<and> same_globals st s1"
proof -
  from write_log_result [OF assms(1), of X V "load_cursor V st"]
  obtain s1 j where r:
    "write_log X V (load_cursor V st) st = Inr (log_end X V st, s1)"
    "eeprom_writes s1 = eeprom_writes st @
       block_writes (load_cursor V st) (log_bytes (selected st) (written_units X V st))"
    "freed s1 = freed st @ [0..<j]" "j \<le> unat (nTransactions st)"
    "\<not> breaks V (load_cursor V st + 6) (pending_units X st) \<longrightarrow> j = unat (nTransactions st)"
    "same_globals st s1"
    unfolding log_end_def written_units_def by blast
  have "flush_log X V st = Inr (store_cursor V (log_end X V st) s1)"
    using assms(2,3) r(1) by (simp add: flush_log_def Let_def)
  with r show ?thesis by blast
qed

lemma flush_log_skips:
  "nTransactions st = 0 \<or> EEPROM_MAX_ADDRESS V \<le> load_cursor V st \<Longrightarrow> flush_log X V st = Inr st"
  by (auto simp: flush_log_def Let_def not_less)

lemma flush_log_total:
  assumes "buffer_ok st"
  shows "\<exists>st'. flush_log X V st = Inr st' \<and> same_globals st st'"
proof (cases "0 < nTransactions st \<and> load_cursor V st < EEPROM_MAX_ADDRESS V")
  case True
  with flush_log_runs [OF assms, of V X] obtain s1
    where "flush_log X V st = Inr (store_cursor V (log_end X V st) s1)" "same_globals st s1"
    by blast
  then show ?thesis
    using same_globals_trans [OF _ same_globals_store_cursor] by blast
next
  case False
  then have "nTransactions st = 0 \<or> EEPROM_MAX_ADDRESS V \<le> load_cursor V st"
    by (auto simp: not_less word_greater_zero_iff)
  from flush_log_skips [OF this] show ?thesis
    by (simp add: same_globals_refl)
qed

subsection \<open>The handler as a whole\<close>

lemma ISR_INT0_flush:
  "ISR_INT0 X V freq st =
     (case flush_log X V (before_flush V st) of
        Inl f \<Rightarrow> Inl f
      | Inr s \<Rightarrow> Inr (wdt_enable ((warm_reset_update V freq s)\<lparr>int0_enabled := False\<rparr>)))"
  by (simp add: ISR_INT0_def before_flush_def Let_def wdt_disable_def)

lemma buffer_ok_before_flush: "buffer_ok (before_flush V st) = buffer_ok st"
  by (simp add: buffer_ok_def before_flush_def eeprom_write_byte_def wdt_disable_def)

lemma before_flush_fields:
  "eeprom_writes (before_flush V st) = eeprom_writes st @ [(EEPROM_COUNTER V, nCounter st)]"
  "freed (before_flush V st) = freed st"
  "transactionData (before_flush V st) = transactionData st"
  "nTransactions (before_flush V st) = nTransactions st"
  "warmResetByte (before_flush V st) = warmResetByte st"
  "selected (before_flush V st) = selected st"
  by (simp_all add: before_flush_def eeprom_write_byte_def wdt_disable_def)

lemma warm_reset_update_fields:
  "eeprom_writes (warm_reset_update V freq s) =
     eeprom_writes s @ [(EEPROM_WARM_RESET V, warm_flag V (warm_reset_update V freq s))]"
  "freed (warm_reset_update V freq s) = freed s"
  "transactionData (warm_reset_update V freq s) = transactionData s"
  "nTransactions (warm_reset_update V freq s) = nTransactions s"
  by (simp_all add: warm_reset_update_def eeprom_write_byte_def eeprom_read_byte_def Let_def
      warm_flag_def)

lemma warm_reset_update_no_clock:
  "warm_flag V (warm_reset_update V 0 s) = 0"
  "warmResetByte (warm_reset_update V 0 s) = warmResetByte s"
  by (simp_all add: warm_reset_update_def eeprom_write_byte_def warm_flag_def)

lemma warm_reset_update_clock:
  assumes "f \<noteq> 0"
  shows "warmResetByte (warm_reset_update V f s) = warm_flag V s"
    and "warm_flag V (warm_reset_update V f s) =
           (if warm_flag V s = WARM_RESET_VALUE V then 0 else WARM_RESET_VALUE V)"
  using assms
  by (simp_all add: warm_reset_update_def eeprom_write_byte_def eeprom_read_byte_def Let_def
      warm_flag_def)

lemma warm_step_unset:
  assumes "f \<noteq> 0" "warm_flag V s \<noteq> WARM_RESET_VALUE V"
  shows "reported V (warm_reset_update V f s) = Cold"
    and "warm_flag V (warm_reset_update V f s) = WARM_RESET_VALUE V"
  using assms
  by (simp_all add: warm_reset_update_def eeprom_write_byte_def eeprom_read_byte_def Let_def
      warm_flag_def reported_def)

lemma warm_step_set:
  assumes "f \<noteq> 0" "warm_flag V s = WARM_RESET_VALUE V"
  shows "reported V (warm_reset_update V f s) = Warm"
    and "warm_flag V (warm_reset_update V f s) = 0"
  using assms
  by (simp_all add: warm_reset_update_def eeprom_write_byte_def eeprom_read_byte_def Let_def
      warm_flag_def reported_def)

subsection \<open>The switch of main\<close>

lemma default_case_fields:
  "apps_run (default_case V st) = apps_run st @ [Terminal]"
  "selected (default_case V st) = APP_TERMINAL V"
  "eeprom (default_case V st) (EEPROM_APPLICATION V) = APP_TERMINAL V"
  "eeprom_writes (default_case V st) = eeprom_writes st @ [(EEPROM_APPLICATION V, APP_TERMINAL V)]"
  by (simp_all add: default_case_def run_def eeprom_write_byte_def Let_def)

lemma run_fields:
  "apps_run (run a st) = apps_run st @ [a]"
  "eeprom_writes (run a st) = eeprom_writes st"
  "eeprom (run a st) = eeprom st"
  "selected (run a st) = selected st"
  by (simp_all add: run_def)

subsection \<open>A flush that fits\<close>

lemma pending_units_buffered:
  "pending_units X st = concat (map (crp_units X) (buffered st))"
proof -
  have "concat (map (\<lambda>r. case r of None \<Rightarrow> [] | Some crp \<Rightarrow> crp_units X crp) xs) =
        concat (map (crp_units X) (List.map_filter (\<lambda>r. r) xs))" for xs
    by (induction xs) (simp_all add: List.map_filter_simps split: option.splits)
  then show ?thesis
    by (simp add: pending_units_def units_from_def buffered_def)
qed

lemma serializable_units:
  "list_all (serializable X) recs \<Longrightarrow>
   concat (concat (map (crp_units X) recs)) = concat (map (record_stream X) recs)"
  by (induction recs)
    (auto simp: serializable_def crp_units_def record_stream_def payload_short
      split: option.splits)

lemma flush_log_fits:
  assumes ok: "buffer_ok st" and ne: "0 < nTransactions st"
    and cur: "load_cursor V st < EEPROM_MAX_ADDRESS V"
    and fits: "unat (load_cursor V st) + 6 + length (concat (pending_units X st))
                 \<le> unat (EEPROM_MAX_ADDRESS V)"
  shows "\<exists>st'. flush_log X V st = Inr st' \<and>
           eeprom_writes st' = eeprom_writes st @
             block_writes (load_cursor V st) (log_bytes (selected st) (pending_units X st)) @
             [(EEPROM_TLOG_POINTER_HI V,
                 page_hi (load_cursor V st + of_nat (length (log_bytes (selected st) (pending_units X st))))),
              (EEPROM_TLOG_POINTER_LO V,
                 page_lo (load_cursor V st + of_nat (length (log_bytes (selected st) (pending_units X st)))))] \<and>
           freed st' = freed st @ [0..<unat (nTransactions st)] \<and> same_globals st st'"
proof -
  have "unat (EEPROM_MAX_ADDRESS V) < 2 ^ LENGTH(16)" by (rule unsigned_less)
  with fits have "unat (load_cursor V st) + 6 < 65536" by simp
  from unat_plus_of_nat [OF this] have "unat (load_cursor V st + 6) = unat (load_cursor V st) + 6"
    by simp
  with fits have "unat (load_cursor V st + 6) + length (concat (pending_units X st))
      \<le> unat (EEPROM_MAX_ADDRESS V)" by simp
  from units_written_all [OF this]
  have nb: "\<not> breaks V (load_cursor V st + 6) (pending_units X st)"
    and all: "written_units X V st = pending_units X st"
    by (simp_all add: written_units_def)
  from flush_log_runs [OF ok ne cur, of X] nb obtain s1 where r:
    "flush_log X V st = Inr (store_cursor V (log_end X V st) s1)"
    "eeprom_writes s1 = eeprom_writes st @
       block_writes (load_cursor V st) (log_bytes (selected st) (written_units X V st))"
    "freed s1 = freed st @ [0..<unat (nTransactions st)]" "same_globals st s1"
    by blast
  have "same_globals st (store_cursor V (log_end X V st) s1)"
    using same_globals_trans [OF r(4) same_globals_store_cursor] .
  with r show ?thesis
    by (simp add: writes_store_cursor freed_store_cursor all log_end_def)
qed

section \<open>The claims\<close>

text \<open>
  C1 as stated fails: the handler compares the cursor with \<^verbatim>\<open>EEPROM_MAX_ADDRESS\<close>
  after a unit has been written, not before a write. With the cursor at 0x0FD8 and the
  region end at 0x0FE0, the command marker of the first record is written to 0x0FDE up
  to 0x0FE2, across the region end, and the command to 0x0FE3 up to 0x0FE7 and the end
  marker to 0x0FE8 up to 0x0FEC, both past it; the response of that record is not
  written, so the log ends with a record that has its command but not its response.
\<close>

theorem flush_writes_past_region_end:
  "load_cursor example_values near_end = 0x0FD8
   \<and> EEPROM_MAX_ADDRESS example_values = 0x0FE0
   \<and> map_sum id eeprom_writes (flush_log raw example_values near_end) =
       Inr [(0x0FD8, 0xDD), (0x0FD9, 0xDD), (0x0FDA, 0xDD), (0x0FDB, 0xDD), (0x0FDC, 0xDD),
            (0x0FDD, 0x02),
            (0x0FDE, 0xCC), (0x0FDF, 0xCC), (0x0FE0, 0xCC), (0x0FE1, 0xCC), (0x0FE2, 0xCC),
            (0x0FE3, 0x00), (0x0FE4, 0xA4), (0x0FE5, 0x04), (0x0FE6, 0x00), (0x0FE7, 0x0E),
            (0x0FE8, 0xBB), (0x0FE9, 0xBB), (0x0FEA, 0xBB), (0x0FEB, 0xBB), (0x0FEC, 0xBB),
            (0x0098, 0x0F), (0x0099, 0xF0)]"
  by code_simp

text \<open>
  C1, amended: truncation of the flush. A unit is a marker followed by its whole
  payload. A flush that runs (well-formed non-empty buffer, cursor below
  \<^verbatim>\<open>EEPROM_MAX_ADDRESS\<close>) writes, at consecutive addresses from the cursor,
  APP-MARKER, the application id, a prefix of the sequence of the units of the buffer,
  and END-MARKER; END-MARKER is always written and follows the last unit written. The
  bound is checked after each unit, not before each write: every unit after the first
  one written starts at or below \<^verbatim>\<open>EEPROM_MAX_ADDRESS\<close>, and units are left out only
  when the last unit written ended above \<^verbatim>\<open>EEPROM_MAX_ADDRESS\<close>.
\<close>

theorem flush_truncation:
  assumes "buffer_ok st" "0 < nTransactions st"
    and "load_cursor V st < EEPROM_MAX_ADDRESS V"
  shows "\<exists>st'. flush_log X V st = Inr st' \<and>
           eeprom_writes st' = eeprom_writes st @
             block_writes (load_cursor V st)
               (appstr @ [selected st] @ concat (written_units X V st) @ endstr) @
             [(EEPROM_TLOG_POINTER_HI V, page_hi (log_end X V st)),
              (EEPROM_TLOG_POINTER_LO V, page_lo (log_end X V st))] \<and>
           (\<exists>k. written_units X V st = take k (pending_units X st)) \<and>
           (\<forall>k. 0 < k \<and> k < length (written_units X V st) \<longrightarrow>
                load_cursor V st + 6 + of_nat (length (concat (take k (written_units X V st))))
                  \<le> EEPROM_MAX_ADDRESS V) \<and>
           (written_units X V st \<noteq> pending_units X st \<longrightarrow>
              EEPROM_MAX_ADDRESS V
                < load_cursor V st + 6 + of_nat (length (concat (written_units X V st))))"
proof -
  from flush_log_runs [OF assms, of X] obtain s1 where
    "flush_log X V st = Inr (store_cursor V (log_end X V st) s1)"
    "eeprom_writes s1 = eeprom_writes st @
       block_writes (load_cursor V st) (log_bytes (selected st) (written_units X V st))"
    by blast
  then have "flush_log X V st = Inr (store_cursor V (log_end X V st) s1)"
    "eeprom_writes (store_cursor V (log_end X V st) s1) = eeprom_writes st @
        block_writes (load_cursor V st)
               (appstr @ [selected st] @ concat (written_units X V st) @ endstr) @
             [(EEPROM_TLOG_POINTER_HI V, page_hi (log_end X V st)),
              (EEPROM_TLOG_POINTER_LO V, page_lo (log_end X V st))]"
    by (simp_all add: writes_store_cursor log_bytes_def)
  moreover have "\<exists>k. written_units X V st = take k (pending_units X st)"
    unfolding written_units_def by (rule units_written_take)
  moreover have "\<forall>k. 0 < k \<and> k < length (written_units X V st) \<longrightarrow>
                load_cursor V st + 6 + of_nat (length (concat (take k (written_units X V st))))
                  \<le> EEPROM_MAX_ADDRESS V"
    unfolding written_units_def using units_written_checked by blast
  moreover have "written_units X V st \<noteq> pending_units X st \<longrightarrow>
              EEPROM_MAX_ADDRESS V
                < load_cursor V st + 6 + of_nat (length (concat (written_units X V st)))"
    unfolding written_units_def using units_written_truncated by blast
  ultimately show ?thesis by blast
qed

theorem flush_truncation_witness:
  "buffer_ok near_end \<and> 0 < nTransactions near_end
   \<and> load_cursor example_values near_end < EEPROM_MAX_ADDRESS example_values
   \<and> written_units raw example_values near_end \<noteq> pending_units raw near_end
   \<and> EEPROM_MAX_ADDRESS example_values
       < load_cursor example_values near_end + 6
         + of_nat (length (concat (written_units raw example_values near_end)))
   \<and> map_sum id (length \<circ> eeprom_writes) (flush_log raw example_values near_end) = Inr 23"
proof -
  have h: "buffer_ok near_end" "0 < nTransactions near_end"
    "load_cursor example_values near_end < EEPROM_MAX_ADDRESS example_values"
    by code_simp+
  have n: "written_units raw example_values near_end \<noteq> pending_units raw near_end"
    by code_simp
  have w: "written_units raw example_values near_end
           = [[0xCC, 0xCC, 0xCC, 0xCC, 0xCC, 0x00, 0xA4, 0x04, 0x00, 0x0E]]"
    by code_simp
  have l: "length (block_writes a xs) = length xs" for a xs
    by (induction xs arbitrary: a) simp_all
  from flush_truncation [OF h, of raw] n obtain st' where
    "flush_log raw example_values near_end = Inr st'"
    "eeprom_writes st' = eeprom_writes near_end @
             block_writes (load_cursor example_values near_end)
               (appstr @ [selected near_end] @ concat (written_units raw example_values near_end)
                @ endstr) @
             [(EEPROM_TLOG_POINTER_HI example_values, page_hi (log_end raw example_values near_end)),
              (EEPROM_TLOG_POINTER_LO example_values, page_lo (log_end raw example_values near_end))]"
    "EEPROM_MAX_ADDRESS example_values
       < load_cursor example_values near_end + 6
         + of_nat (length (concat (written_units raw example_values near_end)))"
    by blast
  moreover have "eeprom_writes near_end = []"
    by (simp add: near_end_def two_exchanges_def)
  ultimately have "map_sum id (length \<circ> eeprom_writes) (flush_log raw example_values near_end) = Inr 23"
    "EEPROM_MAX_ADDRESS example_values
       < load_cursor example_values near_end + 6
         + of_nat (length (concat (written_units raw example_values near_end)))"
    by (simp_all add: l w appstr_def endstr_def)
  with h n show ?thesis by blast
qed

text \<open>
  C2 as stated fails twice. The low pointer byte is rounded in 8 bits and a carry out of
  it is not added to the high byte: a flush from 0x0108 whose log ends at 0x01FA persists
  the cursor 0x0100, below the cursor before. And the flush from 0x0FD8 persists 0x0FF0,
  above the region end 0x0FE0.
\<close>

theorem cursor_rewinds_and_overshoots:
  "unat (load_cursor example_values low_byte_carry) = 0x0108
   \<and> unat (log_end raw example_values low_byte_carry) = 0x01FA
   \<and> map_sum id (stored_cursor example_values) (flush_log raw example_values low_byte_carry)
       = Inr 0x0100
   \<and> unat (load_cursor example_values near_end) = 0x0FD8
   \<and> unat (EEPROM_MAX_ADDRESS example_values) = 0x0FE0
   \<and> map_sum id (stored_cursor example_values) (flush_log raw example_values near_end)
       = Inr 0x0FF0"
  by code_simp

text \<open>
  C2, amended: the cursor after a flush. Let the two pointer bytes have different
  addresses and let \<^verbatim>\<open>EEPROM_MAX_ADDRESS\<close> be at most 0xFEF1, so that no address of a
  flush wraps around. For every flush that runs (well-formed non-empty buffer, cursor
  below \<^verbatim>\<open>EEPROM_MAX_ADDRESS\<close>) the log ends at an address \<open>e\<close> that is at least 11
  above the cursor before and at most 270 above \<^verbatim>\<open>EEPROM_MAX_ADDRESS\<close>; the persisted
  cursor is a multiple of 8 and at most \<open>e + 8\<close>; and when the low byte of \<open>e\<close> is below
  0xF8, the persisted cursor is above \<open>e\<close>, hence above the cursor before the flush.
  Nothing is said for a low byte from 0xF8 on.
\<close>

theorem cursor_after_flush:
  assumes "buffer_ok st" "0 < nTransactions st"
    and "load_cursor V st < EEPROM_MAX_ADDRESS V"
    and "EEPROM_TLOG_POINTER_HI V \<noteq> EEPROM_TLOG_POINTER_LO V"
    and "unat (EEPROM_MAX_ADDRESS V) \<le> 0xFEF1"
  shows "\<exists>st'. flush_log X V st = Inr st' \<and>
           8 dvd stored_cursor V st' \<and>
           unat (load_cursor V st) + 11 \<le> unat (log_end X V st) \<and>
           unat (log_end X V st) \<le> unat (EEPROM_MAX_ADDRESS V) + 270 \<and>
           stored_cursor V st' \<le> unat (log_end X V st) + 8 \<and>
           (unat (log_end X V st) mod 256 < 0xF8 \<longrightarrow>
              unat (log_end X V st) < stored_cursor V st')"
proof -
  let ?c = "load_cursor V st"
  let ?W = "written_units X V st"
  let ?e = "log_end X V st"
  from flush_log_runs [OF assms(1-3), of X] obtain s1 where
    f: "flush_log X V st = Inr (store_cursor V ?e s1)"
    by blast
  have sc: "stored_cursor V (store_cursor V ?e s1) =
      256 * (unat ?e div 256) + (unat ?e mod 256 + 8) mod 256 div 8 * 8"
    by (simp add: stored_cursor_store_cursor [OF assms(4)] unat_page_hi unat_page_lo)
  from assms(3) have lt: "unat ?c < unat (EEPROM_MAX_ADDRESS V)"
    by (simp add: word_less_nat_alt)
  with assms(5) have "unat ?c + 6 < 65536" by simp
  from unat_plus_of_nat [OF this] have c6: "unat (?c + 6) = unat ?c + 6" by simp
  have "\<forall>u \<in> set (pending_units X st). length u \<le> 260"
    using length_pending_unit by blast
  moreover from c6 lt have "unat (?c + 6) \<le> unat (EEPROM_MAX_ADDRESS V) + 5" by simp
  moreover from assms(5) have "unat (EEPROM_MAX_ADDRESS V) + 265 < 65536" by simp
  ultimately have "unat (?c + 6) + length (concat ?W) \<le> unat (EEPROM_MAX_ADDRESS V) + 265"
    unfolding written_units_def by (rule units_written_bound)
  with c6 have b: "unat ?c + (11 + length (concat ?W)) \<le> unat (EEPROM_MAX_ADDRESS V) + 270"
    by simp
  with assms(5) have "unat ?c + (11 + length (concat ?W)) < 65536" by simp
  from unat_plus_of_nat [OF this]
  have e: "unat ?e = unat ?c + (11 + length (concat ?W))"
    by (simp add: log_end_def log_bytes_def appstr_def endstr_def)
  have "8 dvd stored_cursor V (store_cursor V ?e s1)"
    unfolding sc by (rule page_round_dvd)
  moreover have "unat ?c + 11 \<le> unat ?e" "unat ?e \<le> unat (EEPROM_MAX_ADDRESS V) + 270"
    using e b by simp_all
  moreover have "stored_cursor V (store_cursor V ?e s1) \<le> unat ?e + 8"
    unfolding sc by (rule page_round_le)
  moreover have "unat ?e mod 256 < 0xF8 \<longrightarrow> unat ?e < stored_cursor V (store_cursor V ?e s1)"
    unfolding sc using page_round_gt by simp
  ultimately show ?thesis using f by blast
qed

theorem cursor_after_flush_witness:
  "buffer_ok two_exchanges \<and> 0 < nTransactions two_exchanges
   \<and> load_cursor example_values two_exchanges < EEPROM_MAX_ADDRESS example_values
   \<and> EEPROM_TLOG_POINTER_HI example_values \<noteq> EEPROM_TLOG_POINTER_LO example_values
   \<and> unat (EEPROM_MAX_ADDRESS example_values) \<le> 0xFEF1
   \<and> unat (log_end raw example_values two_exchanges) mod 256 < 0xF8
   \<and> unat (load_cursor example_values two_exchanges) = 0x0100
   \<and> unat (log_end raw example_values two_exchanges) = 0x0131
   \<and> map_sum id ((<) 0x0131 \<circ> stored_cursor example_values)
        (flush_log raw example_values two_exchanges) = Inr True
   \<and> map_sum id ((dvd) 8 \<circ> stored_cursor example_values)
        (flush_log raw example_values two_exchanges) = Inr True"
proof -
  have h: "buffer_ok two_exchanges" "0 < nTransactions two_exchanges"
    "load_cursor example_values two_exchanges < EEPROM_MAX_ADDRESS example_values"
    "EEPROM_TLOG_POINTER_HI example_values \<noteq> EEPROM_TLOG_POINTER_LO example_values"
    "unat (EEPROM_MAX_ADDRESS example_values) \<le> 0xFEF1"
    by code_simp+
  have v: "unat (load_cursor example_values two_exchanges) = 0x0100"
    "unat (log_end raw example_values two_exchanges) = 0x0131"
    by code_simp+
  then have m: "unat (log_end raw example_values two_exchanges) mod 256 < 0xF8"
    by simp
  from cursor_after_flush [OF h, of raw] m obtain st' where
    "flush_log raw example_values two_exchanges = Inr st'"
    "8 dvd stored_cursor example_values st'"
    "unat (log_end raw example_values two_exchanges) < stored_cursor example_values st'"
    by blast
  then have "map_sum id ((<) 0x0131 \<circ> stored_cursor example_values)
        (flush_log raw example_values two_exchanges) = Inr True"
    "map_sum id ((dvd) 8 \<circ> stored_cursor example_values)
        (flush_log raw example_values two_exchanges) = Inr True"
    using v by simp_all
  with h v m show ?thesis by blast
qed

text \<open>
  C3 as stated fails: with the flag unset, a terminal reset at which
  \<^verbatim>\<open>GetTerminalFreq()\<close> returns 0 leaves the flag at 0 instead of setting it to the
  sentinel 0xAA.
\<close>

theorem toggle_needs_clock:
  "warm_flag example_values idle = 0 \<and> WARM_RESET_VALUE example_values = 0xAA
   \<and> map_sum id (warm_flag example_values) (ISR_INT0 raw example_values 0 idle) = Inr 0
   \<and> warm_flag example_values (warm_reset_update example_values 0 idle) = 0"
  by (simp add: warm_flag_def idle_def two_exchanges_def example_values_def ISR_INT0_def
      flush_log_def Let_def wdt_disable_def wdt_enable_def eeprom_write_byte_def
      warm_reset_update_def)

text \<open>
  C3, amended: the two-step cycle holds over the terminal resets at which the terminal
  clock is detected. Let the sentinel differ from 0, let the flag be unset (anything but
  the sentinel), and let lines 411 to 434 run once per reset, with nothing else writing
  the flag in between, and every reading of \<^verbatim>\<open>GetTerminalFreq()\<close> different from 0.
  Then the first, third, fifth, ... run takes the Cold branch and leaves the flag at the
  sentinel, and the second, fourth, ... run takes the Warm branch and leaves the flag
  at 0.
\<close>

theorem warm_cold_two_cycle:
  assumes "WARM_RESET_VALUE V \<noteq> 0" "warm_flag V st \<noteq> WARM_RESET_VALUE V"
    and "\<forall>f \<in> set fs. f \<noteq> 0" "fs \<noteq> []"
  shows "(odd (length fs) \<longrightarrow>
            reported V (fold (warm_reset_update V) fs st) = Cold \<and>
            warm_flag V (fold (warm_reset_update V) fs st) = WARM_RESET_VALUE V) \<and>
         (even (length fs) \<longrightarrow>
            reported V (fold (warm_reset_update V) fs st) = Warm \<and>
            warm_flag V (fold (warm_reset_update V) fs st) = 0)"
  using assms(3,4)
proof (induction fs rule: rev_induct)
  case Nil
  then show ?case by simp
next
  case (snoc f fs)
  from snoc.prems have f: "f \<noteq> 0" by simp
  let ?s = "fold (warm_reset_update V) fs st"
  have unset: "even (length fs) \<Longrightarrow> warm_flag V ?s \<noteq> WARM_RESET_VALUE V"
  proof (cases "fs = []")
    case True
    then show ?thesis using assms(2) by simp
  next
    case False
    assume "even (length fs)"
    with snoc.IH False snoc.prems have "warm_flag V ?s = 0" by simp
    with assms(1) show ?thesis by simp
  qed
  have set: "odd (length fs) \<Longrightarrow> warm_flag V ?s = WARM_RESET_VALUE V"
  proof -
    assume o: "odd (length fs)"
    then have "fs \<noteq> []" by auto
    with snoc.IH snoc.prems o show ?thesis by simp
  qed
  show ?case
  proof (cases "even (length fs)")
    case True
    from warm_step_unset [OF f unset [OF True]] True show ?thesis by simp
  next
    case False
    from warm_step_set [OF f set [OF False]] False show ?thesis by simp
  qed
qed

theorem warm_cold_two_cycle_witness:
  "WARM_RESET_VALUE example_values \<noteq> 0
   \<and> warm_flag example_values idle \<noteq> WARM_RESET_VALUE example_values
   \<and> reported example_values (fold (warm_reset_update example_values) [4000] idle) = Cold
   \<and> warm_flag example_values (fold (warm_reset_update example_values) [4000] idle) = 0xAA
   \<and> reported example_values (fold (warm_reset_update example_values) [4000, 4000] idle) = Warm
   \<and> warm_flag example_values (fold (warm_reset_update example_values) [4000, 4000] idle) = 0"
proof -
  have h: "WARM_RESET_VALUE example_values \<noteq> 0"
    "warm_flag example_values idle \<noteq> WARM_RESET_VALUE example_values"
    by (simp_all add: warm_flag_def idle_def two_exchanges_def example_values_def)
  have v: "WARM_RESET_VALUE example_values = 0xAA" by (simp add: example_values_def)
  have a: "\<forall>f \<in> set [4000 :: uint16_t]. f \<noteq> 0" "[4000 :: uint16_t] \<noteq> []"
    and b: "\<forall>f \<in> set [4000 :: uint16_t, 4000]. f \<noteq> 0" "[4000 :: uint16_t, 4000] \<noteq> []"
    by simp_all
  from warm_cold_two_cycle [OF h a] warm_cold_two_cycle [OF h b] h v
  show ?thesis by simp
qed

text \<open>
  C4: release of the records. The claim asks for \<^verbatim>\<open>FreeCRP\<close> on every record of the
  buffer also when the flush is truncated. In the handler the two \<^verbatim>\<open>break\<close> statements
  leave the loop before \<^verbatim>\<open>FreeCRP(transactionData[i])\<close>: in the truncated flush from
  0x0FD8 neither of the two records is released, while the complete flush of the same
  buffer releases both.
\<close>

theorem truncated_flush_releases_nothing:
  "nTransactions near_end = 2
   \<and> map_sum id freed (ISR_INT0 raw example_values 4000 near_end) = Inr []
   \<and> map_sum id freed (ISR_INT0 raw example_values 4000 two_exchanges) = Inr [0, 1]"
  by code_simp

text \<open>
  C5 as stated fails in its clause on the buffer length: the handler never assigns
  \<^verbatim>\<open>nTransactions\<close>. After the handler has flushed the two records of the scenario,
  \<^verbatim>\<open>nTransactions\<close> is still 2.
\<close>

theorem buffer_length_kept:
  "nTransactions two_exchanges = 2
   \<and> map_sum id nTransactions (ISR_INT0 raw example_values 4000 two_exchanges) = Inr 2
   \<and> map_sum id freed (ISR_INT0 raw example_values 4000 two_exchanges) = Inr [0, 1]"
  by code_simp

text \<open>
  C5, amended: flush ordering and stream format. Take a non-empty well-formed buffer
  whose records all serialize, and a cursor such that the whole stream ends at or below
  \<^verbatim>\<open>EEPROM_MAX_ADDRESS\<close>. Then the flush writes, at consecutive addresses from the
  cursor, APP-MARKER, the application id, for each record in index order CMD-MARKER and
  command bytes followed by RSP-MARKER and response bytes, then END-MARKER; the pointer
  bytes are computed from the cursor advanced by exactly the length of this stream; every
  record is released once, in index order. The handler leaves \<^verbatim>\<open>nTransactions\<close> as it
  is: the length is reset to 0 by \<^verbatim>\<open>InitSCD\<close> at the next boot.
\<close>

theorem flush_order_and_format:
  assumes "buffer_ok st" "0 < nTransactions st"
    and "load_cursor V st < EEPROM_MAX_ADDRESS V"
    and "list_all (serializable X) (buffered st)"
    and "unat (load_cursor V st) + length (expected_stream X (selected st) (buffered st))
           \<le> unat (EEPROM_MAX_ADDRESS V)"
  shows "\<exists>st'. flush_log X V st = Inr st' \<and>
           eeprom_writes st' = eeprom_writes st @
             block_writes (load_cursor V st) (expected_stream X (selected st) (buffered st)) @
             [(EEPROM_TLOG_POINTER_HI V,
                 page_hi (load_cursor V st
                          + of_nat (length (expected_stream X (selected st) (buffered st))))),
              (EEPROM_TLOG_POINTER_LO V,
                 page_lo (load_cursor V st
                          + of_nat (length (expected_stream X (selected st) (buffered st)))))] \<and>
           freed st' = freed st @ [0..<unat (nTransactions st)] \<and>
           nTransactions st' = nTransactions st \<and>
           nTransactions (InitSCD V inp st') = 0"
proof -
  have eq: "log_bytes (selected st) (pending_units X st)
            = expected_stream X (selected st) (buffered st)"
    using serializable_units [OF assms(4)]
    by (simp add: log_bytes_def expected_stream_def pending_units_buffered)
  then have "length (expected_stream X (selected st) (buffered st))
             = 11 + length (concat (pending_units X st))"
    by (simp add: log_bytes_def appstr_def endstr_def flip: eq)
  with assms(5) have "unat (load_cursor V st) + 6 + length (concat (pending_units X st))
                 \<le> unat (EEPROM_MAX_ADDRESS V)" by simp
  from flush_log_fits [OF assms(1-3) this] obtain st' where
    "flush_log X V st = Inr st'"
    "eeprom_writes st' = eeprom_writes st @
       block_writes (load_cursor V st) (log_bytes (selected st) (pending_units X st)) @
       [(EEPROM_TLOG_POINTER_HI V,
           page_hi (load_cursor V st + of_nat (length (log_bytes (selected st) (pending_units X st))))),
        (EEPROM_TLOG_POINTER_LO V,
           page_lo (load_cursor V st + of_nat (length (log_bytes (selected st) (pending_units X st)))))]"
    "freed st' = freed st @ [0..<unat (nTransactions st)]" "same_globals st st'"
    by blast
  moreover have "nTransactions (InitSCD V inp st') = 0"
    by (simp add: InitSCD_def Let_def)
  ultimately show ?thesis
    unfolding eq by (auto simp: same_globals_def)
qed

theorem flush_order_and_format_witness:
  "buffer_ok two_exchanges \<and> 0 < nTransactions two_exchanges
   \<and> load_cursor example_values two_exchanges < EEPROM_MAX_ADDRESS example_values
   \<and> list_all (serializable raw) (buffered two_exchanges)
   \<and> unat (load_cursor example_values two_exchanges)
       + length (expected_stream raw (selected two_exchanges) (buffered two_exchanges))
       \<le> unat (EEPROM_MAX_ADDRESS example_values)
   \<and> length (expected_stream raw (selected two_exchanges) (buffered two_exchanges))
       = 5 + 1 + (5 + 5) + (5 + 2) + (5 + 5) + (5 + 6) + 5
   \<and> map_sum id eeprom_writes (flush_log raw example_values two_exchanges) =
       Inr (block_writes 0x0100
              ([0xDD, 0xDD, 0xDD, 0xDD, 0xDD] @ [2] @
               [0xCC, 0xCC, 0xCC, 0xCC, 0xCC] @ [0x00, 0xA4, 0x04, 0x00, 0x0E] @
               [0xAA, 0xAA, 0xAA, 0xAA, 0xAA] @ [0x90, 0x00] @
               [0xCC, 0xCC, 0xCC, 0xCC, 0xCC] @ [0x00, 0xC0, 0x00, 0x00, 0x0E] @
               [0xAA, 0xAA, 0xAA, 0xAA, 0xAA] @ [0xDE, 0xAD, 0xBE, 0xEF, 0x90, 0x00] @
               [0xBB, 0xBB, 0xBB, 0xBB, 0xBB]) @
            [(0x98, 0x01), (0x99, 0x38)])
   \<and> map_sum id freed (flush_log raw example_values two_exchanges) = Inr [0, 1]
   \<and> map_sum id nTransactions (flush_log raw example_values two_exchanges) = Inr 2"
proof -
  have c: "load_cursor example_values two_exchanges = 0x0100" by code_simp
  have s: "expected_stream raw (selected two_exchanges) (buffered two_exchanges) =
      [0xDD, 0xDD, 0xDD, 0xDD, 0xDD] @ [2] @
      [0xCC, 0xCC, 0xCC, 0xCC, 0xCC] @ [0x00, 0xA4, 0x04, 0x00, 0x0E] @
      [0xAA, 0xAA, 0xAA, 0xAA, 0xAA] @ [0x90, 0x00] @
      [0xCC, 0xCC, 0xCC, 0xCC, 0xCC] @ [0x00, 0xC0, 0x00, 0x00, 0x0E] @
      [0xAA, 0xAA, 0xAA, 0xAA, 0xAA] @ [0xDE, 0xAD, 0xBE, 0xEF, 0x90, 0x00] @
      [0xBB, 0xBB, 0xBB, 0xBB, 0xBB]"
    by code_simp
  have h: "buffer_ok two_exchanges" "0 < nTransactions two_exchanges"
    "load_cursor example_values two_exchanges < EEPROM_MAX_ADDRESS example_values"
    "list_all (serializable raw) (buffered two_exchanges)"
    "unat (load_cursor example_values two_exchanges)
       + length (expected_stream raw (selected two_exchanges) (buffered two_exchanges))
       \<le> unat (EEPROM_MAX_ADDRESS example_values)"
    by code_simp+
  have v: "eeprom_writes two_exchanges = []" "freed two_exchanges = []"
    "nTransactions two_exchanges = 2"
    "EEPROM_TLOG_POINTER_HI example_values = 0x98" "EEPROM_TLOG_POINTER_LO example_values = 0x99"
    by (simp_all add: two_exchanges_def example_values_def)
  have p: "page_hi (0x0100 + 49) = 0x01" "page_lo (0x0100 + 49) = 0x38"
    by (simp_all add: page_hi_def page_lo_def)
  from flush_order_and_format [OF h, of no_button] obtain st' where
    "flush_log raw example_values two_exchanges = Inr st'"
    "eeprom_writes st' = eeprom_writes two_exchanges @
       block_writes (load_cursor example_values two_exchanges)
         (expected_stream raw (selected two_exchanges) (buffered two_exchanges)) @
       [(EEPROM_TLOG_POINTER_HI example_values,
           page_hi (load_cursor example_values two_exchanges
                    + of_nat (length (expected_stream raw (selected two_exchanges) (buffered two_exchanges))))),
        (EEPROM_TLOG_POINTER_LO example_values,
           page_lo (load_cursor example_values two_exchanges
                    + of_nat (length (expected_stream raw (selected two_exchanges) (buffered two_exchanges)))))]"
    "freed st' = freed two_exchanges @ [0..<unat (nTransactions two_exchanges)]"
    "nTransactions st' = nTransactions two_exchanges"
    by blast
  then have "map_sum id eeprom_writes (flush_log raw example_values two_exchanges) =
       Inr (block_writes 0x0100
              ([0xDD, 0xDD, 0xDD, 0xDD, 0xDD] @ [2] @
               [0xCC, 0xCC, 0xCC, 0xCC, 0xCC] @ [0x00, 0xA4, 0x04, 0x00, 0x0E] @
               [0xAA, 0xAA, 0xAA, 0xAA, 0xAA] @ [0x90, 0x00] @
               [0xCC, 0xCC, 0xCC, 0xCC, 0xCC] @ [0x00, 0xC0, 0x00, 0x00, 0x0E] @
               [0xAA, 0xAA, 0xAA, 0xAA, 0xAA] @ [0xDE, 0xAD, 0xBE, 0xEF, 0x90, 0x00] @
               [0xBB, 0xBB, 0xBB, 0xBB, 0xBB]) @
            [(0x98, 0x01), (0x99, 0x38)])"
    "map_sum id freed (flush_log raw example_values two_exchanges) = Inr [0, 1]"
    "map_sum id nTransactions (flush_log raw example_values two_exchanges) = Inr 2"
    unfolding c s v using p by (simp_all add: upt_rec)
  moreover have "length (expected_stream raw (selected two_exchanges) (buffered two_exchanges))
       = 5 + 1 + (5 + 5) + (5 + 2) + (5 + 5) + (5 + 6) + 5"
    unfolding s by simp
  ultimately show ?thesis using h by blast
qed

text \<open>
  C6: unknown-application fallback. When \<^verbatim>\<open>selected\<close> is none of the case labels, the
  switch takes the default branch: it sets \<^verbatim>\<open>selected\<close> to \<^verbatim>\<open>APP_TERMINAL\<close>, writes
  that id to \<^verbatim>\<open>EEPROM_APPLICATION\<close> and runs \<^verbatim>\<open>Terminal()\<close>, and nothing else. A later
  boot without the button, from any state whose EEPROM still holds this application byte,
  reads \<^verbatim>\<open>APP_TERMINAL\<close>, runs \<^verbatim>\<open>Terminal()\<close> through its own case and writes nothing
  to the EEPROM.
\<close>

theorem unknown_app_fallback:
  assumes "selected st \<notin> set (case_labels V)" "distinct (case_labels V)"
    and "GetButtonB inp2 \<noteq> 0"
    and "eeprom st2 (EEPROM_APPLICATION V) = eeprom (dispatch V inp st) (EEPROM_APPLICATION V)"
  shows "apps_run (dispatch V inp st) = apps_run st @ [Terminal] \<and>
         selected (dispatch V inp st) = APP_TERMINAL V \<and>
         eeprom (dispatch V inp st) (EEPROM_APPLICATION V) = APP_TERMINAL V \<and>
         eeprom_writes (dispatch V inp st) =
           eeprom_writes st @ [(EEPROM_APPLICATION V, APP_TERMINAL V)] \<and>
         apps_run (main V inp2 st2) = apps_run st2 @ [Terminal] \<and>
         eeprom_writes (main V inp2 st2) = eeprom_writes st2"
proof -
  from assms(1) have d: "dispatch V inp st = default_case V st"
    by (simp add: dispatch_def case_labels_def)
  from assms(2) have ne: "APP_TERMINAL V \<noteq> APP_STORE_PIN V"
    "APP_TERMINAL V \<noteq> APP_LOG_FORWARD V" "APP_TERMINAL V \<noteq> APP_FW_MODIFY_PIN V"
    "APP_TERMINAL V \<noteq> APP_FILTER_GENERATEAC V" "APP_TERMINAL V \<noteq> APP_FILTER_LOG V"
    by (auto simp: case_labels_def)
  from assms(4) d have "eeprom st2 (EEPROM_APPLICATION V) = APP_TERMINAL V"
    by (simp add: default_case_fields)
  with assms(3) ne have "apps_run (main V inp2 st2) = apps_run st2 @ [Terminal]"
    "eeprom_writes (main V inp2 st2) = eeprom_writes st2"
    by (simp_all add: main_def InitSCD_def Let_def dispatch_def run_def eeprom_read_byte_def
        wdt_disable_def)
  with d show ?thesis
    by (simp add: default_case_fields)
qed

theorem unknown_app_fallback_witness:
  "selected unknown_selected \<notin> set (case_labels example_values)
   \<and> distinct (case_labels example_values) \<and> GetButtonB no_button \<noteq> 0
   \<and> apps_run (dispatch example_values no_button unknown_selected) = [Terminal]
   \<and> eeprom (dispatch example_values no_button unknown_selected) 0x32 = 6
   \<and> apps_run (main example_values no_button (dispatch example_values no_button unknown_selected))
       = [Terminal, Terminal]
   \<and> eeprom_writes (main example_values no_button (dispatch example_values no_button unknown_selected))
       = [(0x32, 6)]"
proof -
  have h: "selected unknown_selected \<notin> set (case_labels example_values)"
    "distinct (case_labels example_values)" "GetButtonB no_button \<noteq> 0"
    by (simp_all add: unknown_selected_def idle_def two_exchanges_def example_values_def
        case_labels_def no_button_def)
  have "apps_run unknown_selected = []" "eeprom_writes unknown_selected = []"
    "APP_TERMINAL example_values = 6" "EEPROM_APPLICATION example_values = 0x32"
    by (simp_all add: unknown_selected_def idle_def two_exchanges_def example_values_def)
  with unknown_app_fallback [OF h refl, of no_button] h show ?thesis by simp
qed

text \<open>
  C7: flush no-op conditions. When the buffer is empty, or when the log pointer that the
  handler loaded (a stored 0xFFFF counts as \<^verbatim>\<open>EEPROM_TLOG_DATA\<close>, see C8) is not below
  \<^verbatim>\<open>EEPROM_MAX_ADDRESS\<close>, the flush changes nothing and is not a fault: no marker and no payload byte is written, no record is released, the log
  pointer stays. The only EEPROM writes of the whole handler are then the transaction
  counter and the warm-reset flag.
\<close>

theorem flush_noop:
  assumes "nTransactions st = 0 \<or> EEPROM_MAX_ADDRESS V \<le> load_cursor V (before_flush V st)"
  shows "flush_log X V (before_flush V st) = Inr (before_flush V st) \<and>
    (\<exists>st'. ISR_INT0 X V freq st = Inr st' \<and>
       eeprom_writes st' = eeprom_writes st @
         [(EEPROM_COUNTER V, nCounter st), (EEPROM_WARM_RESET V, warm_flag V st')] \<and>
       freed st' = freed st \<and> transactionData st' = transactionData st)"
proof -
  from assms have "nTransactions (before_flush V st) = 0
      \<or> EEPROM_MAX_ADDRESS V \<le> load_cursor V (before_flush V st)"
    by (simp add: before_flush_fields)
  from flush_log_skips [OF this]
  have f: "flush_log X V (before_flush V st) = Inr (before_flush V st)" .
  let ?st' = "wdt_enable ((warm_reset_update V freq (before_flush V st))\<lparr>int0_enabled := False\<rparr>)"
  have "ISR_INT0 X V freq st = Inr ?st'"
    by (simp add: ISR_INT0_flush f)
  moreover have "eeprom_writes ?st' = eeprom_writes st @
         [(EEPROM_COUNTER V, nCounter st), (EEPROM_WARM_RESET V, warm_flag V ?st')]"
    using warm_reset_update_fields(1) [of V freq "before_flush V st"]
    by (simp add: wdt_enable_def before_flush_fields warm_flag_def)
  moreover have "freed ?st' = freed st" "transactionData ?st' = transactionData st"
    by (simp_all add: wdt_enable_def warm_reset_update_fields before_flush_fields)
  ultimately show ?thesis using f by blast
qed

theorem flush_noop_witness:
  "(nTransactions region_full = 0
      \<or> EEPROM_MAX_ADDRESS example_values \<le> load_cursor example_values (before_flush example_values region_full))
   \<and> map_sum id eeprom_writes (ISR_INT0 raw example_values 1 region_full) = Inr [(0x40, 3), (0x00, 0xAA)]
   \<and> map_sum id freed (ISR_INT0 raw example_values 1 region_full) = Inr []
   \<and> (nTransactions idle = 0
      \<or> EEPROM_MAX_ADDRESS example_values \<le> load_cursor example_values (before_flush example_values idle))
   \<and> map_sum id eeprom_writes (ISR_INT0 raw example_values 1 idle) = Inr [(0x40, 3), (0x00, 0xAA)]"
proof -
  have h1: "nTransactions region_full = 0
      \<or> EEPROM_MAX_ADDRESS example_values \<le> load_cursor example_values (before_flush example_values region_full)"
    by (simp add: region_full_def two_exchanges_def example_values_def load_cursor_def
        before_flush_def eeprom_write_byte_def eeprom_read_byte_def wdt_disable_def)
  have h2: "nTransactions idle = 0
      \<or> EEPROM_MAX_ADDRESS example_values \<le> load_cursor example_values (before_flush example_values idle)"
    by (simp add: idle_def two_exchanges_def)
  from flush_noop [OF h1, of raw 1] obtain s1 where s1:
    "ISR_INT0 raw example_values 1 region_full = Inr s1"
    "eeprom_writes s1 = eeprom_writes region_full @
         [(EEPROM_COUNTER example_values, nCounter region_full),
          (EEPROM_WARM_RESET example_values, warm_flag example_values s1)]"
    "freed s1 = freed region_full"
    by blast
  from flush_noop [OF h2, of raw 1] obtain s2 where s2:
    "ISR_INT0 raw example_values 1 idle = Inr s2"
    "eeprom_writes s2 = eeprom_writes idle @
         [(EEPROM_COUNTER example_values, nCounter idle),
          (EEPROM_WARM_RESET example_values, warm_flag example_values s2)]"
    by blast
  have w1: "map_sum id (warm_flag example_values) (ISR_INT0 raw example_values 1 region_full) = Inr 0xAA"
    by code_simp
  have w2: "map_sum id (warm_flag example_values) (ISR_INT0 raw example_values 1 idle) = Inr 0xAA"
    by code_simp
  from w1 s1 have "warm_flag example_values s1 = 0xAA" by simp
  moreover from w2 s2 have "warm_flag example_values s2 = 0xAA" by simp
  ultimately show ?thesis
    using h1 h2 s1 s2
    by (simp add: region_full_def idle_def two_exchanges_def example_values_def)
qed

text \<open>
  C8: uninitialized-cursor sentinel. When both pointer bytes read from the EEPROM are
  0xFF, that is when the 16-bit pointer is 0xFFFF, the handler continues with
  \<^verbatim>\<open>EEPROM_TLOG_DATA\<close>; every other pair of bytes is used as it is, high byte first.
  This happens before any log write: when the flush runs, its log bytes go to consecutive
  addresses that start at this cursor.
\<close>

theorem cursor_sentinel:
  "(eeprom st (EEPROM_TLOG_POINTER_HI V) = 0xFF \<and> eeprom st (EEPROM_TLOG_POINTER_LO V) = 0xFF
      \<longrightarrow> load_cursor V st = EEPROM_TLOG_DATA V) \<and>
   (\<not> (eeprom st (EEPROM_TLOG_POINTER_HI V) = 0xFF \<and> eeprom st (EEPROM_TLOG_POINTER_LO V) = 0xFF)
      \<longrightarrow> unat (load_cursor V st) = stored_cursor V st) \<and>
   (buffer_ok st \<and> 0 < nTransactions st \<and> load_cursor V st < EEPROM_MAX_ADDRESS V
      \<longrightarrow> (\<exists>st'. flush_log X V st = Inr st' \<and>
             eeprom_writes st' = eeprom_writes st @
               block_writes (load_cursor V st) (log_bytes (selected st) (written_units X V st)) @
               [(EEPROM_TLOG_POINTER_HI V, page_hi (log_end X V st)),
                (EEPROM_TLOG_POINTER_LO V, page_lo (log_end X V st))]))"
proof (intro conjI impI)
  assume "eeprom st (EEPROM_TLOG_POINTER_HI V) = 0xFF \<and> eeprom st (EEPROM_TLOG_POINTER_LO V) = 0xFF"
  then show "load_cursor V st = EEPROM_TLOG_DATA V"
    by (simp add: load_cursor_def Let_def eeprom_read_byte_def hi_lo_FFFF)
next
  assume "\<not> (eeprom st (EEPROM_TLOG_POINTER_HI V) = 0xFF \<and> eeprom st (EEPROM_TLOG_POINTER_LO V) = 0xFF)"
  then show "unat (load_cursor V st) = stored_cursor V st"
    using unat_load_cursor [of V st] by auto
next
  assume "buffer_ok st \<and> 0 < nTransactions st \<and> load_cursor V st < EEPROM_MAX_ADDRESS V"
  then have "buffer_ok st" "0 < nTransactions st" "load_cursor V st < EEPROM_MAX_ADDRESS V"
    by simp_all
  from flush_log_runs [OF this, of X] obtain s1 where
    "flush_log X V st = Inr (store_cursor V (log_end X V st) s1)"
    "eeprom_writes s1 = eeprom_writes st @
       block_writes (load_cursor V st) (log_bytes (selected st) (written_units X V st))"
    by blast
  then show "\<exists>st'. flush_log X V st = Inr st' \<and>
             eeprom_writes st' = eeprom_writes st @
               block_writes (load_cursor V st) (log_bytes (selected st) (written_units X V st)) @
               [(EEPROM_TLOG_POINTER_HI V, page_hi (log_end X V st)),
                (EEPROM_TLOG_POINTER_LO V, page_lo (log_end X V st))]"
    by (simp add: writes_store_cursor)
qed

theorem cursor_sentinel_witness:
  "eeprom two_exchanges (EEPROM_TLOG_POINTER_HI example_values) = 0xFF
   \<and> eeprom two_exchanges (EEPROM_TLOG_POINTER_LO example_values) = 0xFF
   \<and> load_cursor example_values two_exchanges = 0x0100
   \<and> \<not> (eeprom near_end (EEPROM_TLOG_POINTER_HI example_values) = 0xFF
        \<and> eeprom near_end (EEPROM_TLOG_POINTER_LO example_values) = 0xFF)
   \<and> unat (load_cursor example_values near_end) = 0x0FD8
   \<and> buffer_ok two_exchanges \<and> 0 < nTransactions two_exchanges
   \<and> load_cursor example_values two_exchanges < EEPROM_MAX_ADDRESS example_values
   \<and> map_sum id (take 6 \<circ> eeprom_writes) (flush_log raw example_values two_exchanges) =
       Inr [(0x0100, 0xDD), (0x0101, 0xDD), (0x0102, 0xDD), (0x0103, 0xDD), (0x0104, 0xDD),
            (0x0105, 2)]"
proof -
  have e1: "eeprom two_exchanges (EEPROM_TLOG_POINTER_HI example_values) = 0xFF
      \<and> eeprom two_exchanges (EEPROM_TLOG_POINTER_LO example_values) = 0xFF"
    by (simp add: two_exchanges_def example_values_def)
  have e2: "\<not> (eeprom near_end (EEPROM_TLOG_POINTER_HI example_values) = 0xFF
        \<and> eeprom near_end (EEPROM_TLOG_POINTER_LO example_values) = 0xFF)"
    by (simp add: near_end_def two_exchanges_def example_values_def)
  have c1: "load_cursor example_values two_exchanges = 0x0100"
    using cursor_sentinel [of two_exchanges example_values raw] e1
    by (simp add: example_values_def)
  have c2: "unat (load_cursor example_values near_end) = 0x0FD8"
    using cursor_sentinel [of near_end example_values raw] e2
    by (simp add: stored_cursor_def near_end_def two_exchanges_def example_values_def)
  have h: "buffer_ok two_exchanges \<and> 0 < nTransactions two_exchanges
      \<and> load_cursor example_values two_exchanges < EEPROM_MAX_ADDRESS example_values"
    unfolding c1 by (simp add: buffer_ok_def two_exchanges_def example_values_def)
  with cursor_sentinel [of two_exchanges example_values raw] obtain st' where
    "flush_log raw example_values two_exchanges = Inr st'"
    "eeprom_writes st' = eeprom_writes two_exchanges @
       block_writes (load_cursor example_values two_exchanges)
         (log_bytes (selected two_exchanges) (written_units raw example_values two_exchanges)) @
       [(EEPROM_TLOG_POINTER_HI example_values, page_hi (log_end raw example_values two_exchanges)),
        (EEPROM_TLOG_POINTER_LO example_values, page_lo (log_end raw example_values two_exchanges))]"
    by blast
  moreover have "eeprom_writes two_exchanges = []" "selected two_exchanges = 2"
    by (simp_all add: two_exchanges_def)
  ultimately have "map_sum id (take 6 \<circ> eeprom_writes) (flush_log raw example_values two_exchanges) =
       Inr [(0x0100, 0xDD), (0x0101, 0xDD), (0x0102, 0xDD), (0x0103, 0xDD), (0x0104, 0xDD),
            (0x0105, 2)]"
    by (simp add: c1 log_bytes_def appstr_def)
  with e1 e2 c1 c2 h show ?thesis by blast
qed

text \<open>
  C9: the toggle is gated on the terminal clock. With a well-formed buffer the handler
  always reaches lines 411 to 434, and its last EEPROM write is the warm-reset flag. What
  it writes depends on \<^verbatim>\<open>GetTerminalFreq()\<close>. When that returns 0, the flag becomes 0
  whatever it was, and \<^verbatim>\<open>warmResetByte\<close> is not assigned. When it returns anything
  else, \<^verbatim>\<open>warmResetByte\<close> receives the flag that the EEPROM holds after the flush, and
  the flag is toggled: 0 when it was the sentinel, the sentinel otherwise. So the toggle
  advances on the resets with terminal clock only. With an empty buffer and the counter
  byte at another address, the flag after the flush is the flag before the handler.
\<close>

theorem clock_gates_toggle:
  assumes "buffer_ok st"
  shows "\<exists>s st'. flush_log X V (before_flush V st) = Inr s \<and>
           ISR_INT0 X V freq st = Inr st' \<and>
           last (eeprom_writes st') = (EEPROM_WARM_RESET V, warm_flag V st') \<and>
           (freq = 0 \<longrightarrow> warm_flag V st' = 0 \<and> warmResetByte st' = warmResetByte st) \<and>
           (freq \<noteq> 0 \<longrightarrow>
              warmResetByte st' = warm_flag V s \<and>
              warm_flag V st' =
                (if warm_flag V s = WARM_RESET_VALUE V then 0 else WARM_RESET_VALUE V)) \<and>
           (nTransactions st = 0 \<and> EEPROM_COUNTER V \<noteq> EEPROM_WARM_RESET V \<longrightarrow>
              warm_flag V s = warm_flag V st)"
proof -
  from assms have "buffer_ok (before_flush V st)"
    by (simp add: buffer_ok_before_flush)
  from flush_log_total [OF this, of X V] obtain s where s:
    "flush_log X V (before_flush V st) = Inr s" "same_globals (before_flush V st) s"
    by blast
  let ?u = "warm_reset_update V freq s"
  let ?st' = "wdt_enable (?u\<lparr>int0_enabled := False\<rparr>)"
  have f: "warm_flag V (wdt_enable (u\<lparr>int0_enabled := False\<rparr>)) = warm_flag V u"
    "warmResetByte (wdt_enable (u\<lparr>int0_enabled := False\<rparr>)) = warmResetByte u"
    "eeprom_writes (wdt_enable (u\<lparr>int0_enabled := False\<rparr>)) = eeprom_writes u"
    for u :: "('a, 'b) scd_state"
    by (simp_all add: wdt_enable_def warm_flag_def)
  have isr: "ISR_INT0 X V freq st = Inr ?st'"
    by (simp add: ISR_INT0_flush s(1))
  have lw: "last (eeprom_writes ?st') = (EEPROM_WARM_RESET V, warm_flag V ?st')"
    using warm_reset_update_fields(1) [of V freq s] by (simp add: f)
  have off: "freq = 0 \<longrightarrow> warm_flag V ?st' = 0 \<and> warmResetByte ?st' = warmResetByte st"
  proof
    assume z: "freq = 0"
    show "warm_flag V ?st' = 0 \<and> warmResetByte ?st' = warmResetByte st"
      using s(2) warm_reset_update_no_clock [of V s]
      by (simp add: z f same_globals_def before_flush_fields)
  qed
  have on: "freq \<noteq> 0 \<longrightarrow>
              warmResetByte ?st' = warm_flag V s \<and>
              warm_flag V ?st' =
                (if warm_flag V s = WARM_RESET_VALUE V then 0 else WARM_RESET_VALUE V)"
    using warm_reset_update_clock [of freq V s] by (simp add: f)
  have keep: "nTransactions st = 0 \<and> EEPROM_COUNTER V \<noteq> EEPROM_WARM_RESET V \<longrightarrow>
              warm_flag V s = warm_flag V st"
  proof
    assume a: "nTransactions st = 0 \<and> EEPROM_COUNTER V \<noteq> EEPROM_WARM_RESET V"
    then have "nTransactions (before_flush V st) = 0
        \<or> EEPROM_MAX_ADDRESS V \<le> load_cursor V (before_flush V st)"
      by (simp add: before_flush_fields)
    from flush_log_skips [OF this, of X] s(1) have "s = before_flush V st" by simp
    with a show "warm_flag V s = warm_flag V st"
      by (auto simp: warm_flag_def before_flush_def eeprom_write_byte_def wdt_disable_def)
  qed
  from s(1) isr lw off on keep show ?thesis by blast
qed

theorem clock_gates_toggle_witness:
  "buffer_ok idle \<and> nTransactions idle = 0
   \<and> EEPROM_COUNTER example_values \<noteq> EEPROM_WARM_RESET example_values
   \<and> warm_flag example_values idle = 0 \<and> WARM_RESET_VALUE example_values = 0xAA
   \<and> map_sum id (warm_flag example_values) (ISR_INT0 raw example_values 0 idle) = Inr 0
   \<and> map_sum id (warm_flag example_values) (ISR_INT0 raw example_values 4000 idle) = Inr 0xAA
   \<and> buffer_ok warm_pending \<and> warm_flag example_values warm_pending = 0xAA
   \<and> warmResetByte warm_pending = 0
   \<and> map_sum id (warm_flag example_values) (ISR_INT0 raw example_values 0 warm_pending) = Inr 0
   \<and> map_sum id warmResetByte (ISR_INT0 raw example_values 0 warm_pending) = Inr 0
   \<and> map_sum id (warm_flag example_values) (ISR_INT0 raw example_values 4000 warm_pending) = Inr 0
   \<and> map_sum id warmResetByte (ISR_INT0 raw example_values 4000 warm_pending) = Inr 0xAA"
proof -
  have h1: "buffer_ok idle" and h2: "buffer_ok warm_pending"
    by (simp_all add: buffer_ok_def idle_def warm_pending_def two_exchanges_def)
  have v: "nTransactions idle = 0"
    "EEPROM_COUNTER example_values \<noteq> EEPROM_WARM_RESET example_values"
    "warm_flag example_values idle = 0" "WARM_RESET_VALUE example_values = 0xAA"
    "warm_flag example_values warm_pending = 0xAA" "warmResetByte warm_pending = 0"
    by (simp_all add: warm_flag_def idle_def warm_pending_def two_exchanges_def
        example_values_def)
  have z: "(0 :: uint16_t) = 0" and nz: "(4000 :: uint16_t) \<noteq> 0" by simp_all
  from clock_gates_toggle [OF h1, of raw example_values 0] v z
  have a: "map_sum id (warm_flag example_values) (ISR_INT0 raw example_values 0 idle) = Inr 0"
    by auto
  from clock_gates_toggle [OF h1, of raw example_values 4000] v nz
  have b: "map_sum id (warm_flag example_values) (ISR_INT0 raw example_values 4000 idle) = Inr 0xAA"
    by auto
  from clock_gates_toggle [OF h2, of raw example_values 0] v z
  have c: "map_sum id (warm_flag example_values) (ISR_INT0 raw example_values 0 warm_pending) = Inr 0"
    "map_sum id warmResetByte (ISR_INT0 raw example_values 0 warm_pending) = Inr 0"
    by auto
  have fl: "map_sum id (warm_flag example_values)
      (flush_log raw example_values (before_flush example_values warm_pending)) = Inr 0xAA"
    by code_simp
  from clock_gates_toggle [OF h2, of raw example_values 4000] obtain s st' where r:
    "flush_log raw example_values (before_flush example_values warm_pending) = Inr s"
    "ISR_INT0 raw example_values 4000 warm_pending = Inr st'"
    "warmResetByte st' = warm_flag example_values s"
    "warm_flag example_values st' =
       (if warm_flag example_values s = WARM_RESET_VALUE example_values then 0
        else WARM_RESET_VALUE example_values)"
    using nz by blast
  from fl r(1) have "warm_flag example_values s = 0xAA" by simp
  with r v have d:
    "map_sum id (warm_flag example_values) (ISR_INT0 raw example_values 4000 warm_pending) = Inr 0"
    "map_sum id warmResetByte (ISR_INT0 raw example_values 4000 warm_pending) = Inr 0xAA"
    by simp_all
  from h1 h2 v a b c d show ?thesis by blast
qed

text \<open>
  C10: the case \<^verbatim>\<open>APP_VIRTUAL_SERIAL_PORT\<close> has no \<^verbatim>\<open>break\<close>. In every boot that
  dispatches to the virtual serial application, when \<^verbatim>\<open>VirtualSerial()\<close> returns,
  control falls into the default branch: \<^verbatim>\<open>selected\<close> becomes \<^verbatim>\<open>APP_TERMINAL\<close>, that
  id is written to \<^verbatim>\<open>EEPROM_APPLICATION\<close>, and \<^verbatim>\<open>Terminal()\<close> runs after
  \<^verbatim>\<open>VirtualSerial()\<close>.
\<close>

theorem virtual_serial_falls_through:
  assumes "selected st = APP_VIRTUAL_SERIAL_PORT V" "distinct (case_labels V)"
    and "VirtualSerial_returns inp"
  shows "apps_run (dispatch V inp st) = apps_run st @ [VirtualSerial, Terminal] \<and>
         selected (dispatch V inp st) = APP_TERMINAL V \<and>
         eeprom (dispatch V inp st) (EEPROM_APPLICATION V) = APP_TERMINAL V \<and>
         eeprom_writes (dispatch V inp st) =
           eeprom_writes st @ [(EEPROM_APPLICATION V, APP_TERMINAL V)]"
proof -
  from assms(2) have "APP_VIRTUAL_SERIAL_PORT V \<noteq> APP_STORE_PIN V"
    "APP_VIRTUAL_SERIAL_PORT V \<noteq> APP_LOG_FORWARD V"
    "APP_VIRTUAL_SERIAL_PORT V \<noteq> APP_FW_MODIFY_PIN V"
    "APP_VIRTUAL_SERIAL_PORT V \<noteq> APP_FILTER_GENERATEAC V"
    "APP_VIRTUAL_SERIAL_PORT V \<noteq> APP_FILTER_LOG V"
    "APP_VIRTUAL_SERIAL_PORT V \<noteq> APP_TERMINAL V"
    by (auto simp: case_labels_def)
  with assms(1,3) have "dispatch V inp st = default_case V (run VirtualSerial st)"
    by (simp add: dispatch_def Let_def)
  then show ?thesis
    by (simp add: default_case_fields run_fields)
qed

theorem virtual_serial_falls_through_witness:
  "selected serial_selected = APP_VIRTUAL_SERIAL_PORT example_values
   \<and> distinct (case_labels example_values) \<and> VirtualSerial_returns no_button
   \<and> apps_run (dispatch example_values no_button serial_selected) = [VirtualSerial, Terminal]
   \<and> selected (dispatch example_values no_button serial_selected) = 6
   \<and> eeprom_writes (dispatch example_values no_button serial_selected) = [(0x32, 6)]"
proof -
  have h: "selected serial_selected = APP_VIRTUAL_SERIAL_PORT example_values"
    "distinct (case_labels example_values)" "VirtualSerial_returns no_button"
    by (simp_all add: serial_selected_def idle_def two_exchanges_def example_values_def
        case_labels_def no_button_def)
  have "apps_run serial_selected = []" "eeprom_writes serial_selected = []"
    "APP_TERMINAL example_values = 6" "EEPROM_APPLICATION example_values = 0x32"
    by (simp_all add: serial_selected_def idle_def two_exchanges_def example_values_def)
  with virtual_serial_falls_through [OF h] h show ?thesis by simp
qed

end
